theory Spec2Isabelle
  imports Main
begin

section \<open>The realtime service (services/realtime/main.py)\<close>

text \<open>
  The connection manager of the realtime service keeps three dictionaries
  (\<open>active_connections\<close>, \<open>user_connections\<close>, \<open>channel_subscriptions\<close>), talks to
  Redis and to one WebSocket per connection. The embedding below makes all of that
  explicit:
  \<^item> Python values that travel in messages are \<open>json\<close>; a \<open>Dict[str, Any]\<close> is an
    association list in insertion order. JSON numbers are integers here (floats are not
    modelled).
  \<^item> A Python \<open>set\<close> is a duplicate-free list; its iteration order, which Python leaves
    unspecified, is the list's order.
  \<^item> Instants are integers counting microseconds, the resolution of \<open>datetime\<close>;
    \<open>datetime.now()\<close> reads the field \<open>clock\<close> of the state. The clock, the
    availability of Redis and the state of a transport stand still while one operation
    runs and change between operations: two readings of the clock within an operation
    are equal, where the source's second reading is the same instant or a later one.
  \<^item> \<open>uuid.uuid4()\<close> is an argument of the operation that draws it; an id drawn for
    a connection is one that no registered connection has.
  \<^item> Every function that can raise returns \<open>(error + result) \<times> state\<close>: as in Python,
    the mutations made before an exception stay.
\<close>

subsection \<open>Values\<close>

datatype json =
    JNull
  | JBool bool
  | JInt int
  | JStr string
  | JList "json list"
  | JDict "(string \<times> json) list"

type_synonym message = "(string \<times> json) list"

text \<open>
  A text that went through \<open>json.dumps\<close> or is handed to \<open>json.loads\<close>: either it
  decodes to a value or \<open>json.loads\<close> raises.
\<close>

datatype wire = Encoded json | Malformed

definition json_dumps :: "message \<Rightarrow> wire" where
  "json_dumps m = Encoded (JDict m)"

definition json_loads :: "wire \<Rightarrow> json option" where
  "json_loads w = (case w of Encoded j \<Rightarrow> Some j | Malformed \<Rightarrow> None)"

text \<open>Python truthiness (\<open>if x:\<close>) of a decoded JSON value and of an optional string.\<close>

fun truthy :: "json \<Rightarrow> bool" where
  "truthy JNull = False"
| "truthy (JBool b) = b"
| "truthy (JInt n) = (n \<noteq> 0)"
| "truthy (JStr s) = (s \<noteq> [])"
| "truthy (JList xs) = (xs \<noteq> [])"
| "truthy (JDict kvs) = (kvs \<noteq> [])"

fun truthy_str :: "string option \<Rightarrow> bool" where
  "truthy_str None = False"
| "truthy_str (Some u) = (u \<noteq> [])"

text \<open>
  \<open>str(n)\<close> of an integer, and \<open>datetime.isoformat()\<close>. Of the latter only the
  instant matters: the text written here is the microsecond count in decimal, not a
  calendar date.
\<close>

definition digit_char :: "nat \<Rightarrow> char" where
  "digit_char d = char_of (48 + d)"

fun nat_str :: "nat \<Rightarrow> string" where
  "nat_str n = (if n < 10 then [digit_char n] else nat_str (n div 10) @ [digit_char (n mod 10)])"

declare nat_str.simps [simp del]

definition int_str :: "int \<Rightarrow> string" where
  "int_str i = (if i < 0 then CHR ''-'' # nat_str (nat (- i)) else nat_str (nat i))"

definition isoformat :: "int \<Rightarrow> json" where
  "isoformat t = JStr (int_str t)"

text \<open>\<open>d.get(k)\<close> and \<open>d.get(k, default)\<close> on a dictionary.\<close>

definition dict_get :: "message \<Rightarrow> string \<Rightarrow> json" where
  "dict_get d k = (case map_of d k of None \<Rightarrow> JNull | Some v \<Rightarrow> v)"

definition dict_get_default :: "message \<Rightarrow> string \<Rightarrow> json \<Rightarrow> json" where
  "dict_get_default d k dflt = (case map_of d k of None \<Rightarrow> dflt | Some v \<Rightarrow> v)"

text \<open>\<open>d[k] = v\<close>: an existing key keeps its place, a new key goes last.\<close>

fun dict_set :: "message \<Rightarrow> string \<Rightarrow> json \<Rightarrow> message" where
  "dict_set [] k v = [(k, v)]"
| "dict_set ((k', v') # d) k v = (if k' = k then (k, v) # d else (k', v') # dict_set d k v)"

text \<open>Sets as duplicate-free lists: \<open>s.add(x)\<close>, \<open>s.discard(x)\<close>, \<open>s.update(t)\<close>.\<close>

definition set_add :: "'a \<Rightarrow> 'a list \<Rightarrow> 'a list" where
  "set_add x xs = (if x \<in> set xs then xs else xs @ [x])"

definition set_discard :: "'a \<Rightarrow> 'a list \<Rightarrow> 'a list" where
  "set_discard x xs = removeAll x xs"

fun set_update :: "'a list \<Rightarrow> 'a list \<Rightarrow> 'a list" where
  "set_update xs [] = xs"
| "set_update xs (y # ys) = set_update (set_add y xs) ys"

text \<open>\<open>d.get(k, set())\<close> on a dictionary of sets.\<close>

definition get_set :: "('k \<Rightarrow> 'v list option) \<Rightarrow> 'k \<Rightarrow> 'v list" where
  "get_set d k = (case d k of None \<Rightarrow> [] | Some xs \<Rightarrow> xs)"

subsection \<open>Configuration\<close>

text \<open>The class \<open>Config\<close>; every field is read from the environment at start-up.\<close>

record config =
  REDIS_PREFIX :: string
  MAX_CONNECTIONS_PER_USER :: int
  MAX_MESSAGE_SIZE :: int
  CONNECTION_TIMEOUT :: int
  MESSAGE_RETENTION_DAYS :: int
  MAX_MESSAGES_PER_CHANNEL :: int

subsection \<open>Errors\<close>

datatype error =
    HTTPException nat
  | ValueError string
  | KeyError
  | TypeError
  | AttributeError
  | ValidationError
  | JSONDecodeError
  | WebSocketDisconnect
  | TransportError
  | RedisError

subsection \<open>The WebSocket, the connection object, Redis, the manager\<close>

text \<open>
  The transport of one client. \<open>ws_open\<close> tells whether \<open>accept\<close> and \<open>send_text\<close>
  succeed (they raise otherwise); \<open>ws_sent\<close> is what the client has been sent, oldest
  first.
\<close>

record websocket =
  ws_open :: bool
  ws_sent :: "message list"
  ws_user_agent :: "string option"
  ws_client_host :: "string option"

record connection =
  connection_id :: string
  websocket :: websocket
  user_id :: "string option"
  connected_at :: int
  last_seen :: int
  subscribed_channels :: "string list"
  channel_configs :: "string \<Rightarrow> message option option"
  user_agent :: "string option"
  ip_address :: "string option"

text \<open>
  Redis, one table per value type. \<open>r_up\<close> tells whether the server answers: every
  command raises when it does not. An empty list or set is an absent key, as in Redis.
  The four families of keys the service builds (\<open>...:connection:ID\<close>,
  \<open>...:subscribers\<close>, \<open>...:messages\<close>, \<open>...:last_activity\<close>) never coincide, so
  no command of the service meets a value of the wrong type.
\<close>

record redis =
  r_up :: bool
  r_hashes :: "string \<Rightarrow> message option"
  r_sets :: "string \<Rightarrow> string list"
  r_lists :: "string \<Rightarrow> wire list"
  r_strings :: "string \<Rightarrow> json option"
  r_ttl :: "string \<Rightarrow> int option"

text \<open>
  The manager. \<open>objects\<close> is the store of \<open>WebSocketConnection\<close> objects, addressed by
  their connection id; \<open>active_connections\<close> holds the keys of the dictionary in
  insertion order, the value under a key being the object of that id. An object outlives
  its entry in \<open>active_connections\<close>: the endpoint that created it still holds it.
\<close>

record state =
  clock :: int
  objects :: "string \<Rightarrow> connection"
  active_connections :: "string list"
  user_connections :: "string \<Rightarrow> string list option"
  channel_subscriptions :: "string \<Rightarrow> string list option"
  redis :: redis

type_synonym 'a prog = "state \<Rightarrow> (error + 'a) \<times> state"

definition returnE :: "'a \<Rightarrow> 'a prog" where
  "returnE x = (\<lambda>s. (Inr x, s))"

definition raiseE :: "error \<Rightarrow> 'a prog" where
  "raiseE e = (\<lambda>s. (Inl e, s))"

definition bindE :: "'a prog \<Rightarrow> ('a \<Rightarrow> 'b prog) \<Rightarrow> 'b prog" where
  "bindE m f = (\<lambda>s. case m s of (Inl e, s') \<Rightarrow> (Inl e, s') | (Inr x, s') \<Rightarrow> f x s')"

definition try_except :: "'a prog \<Rightarrow> (error \<Rightarrow> 'a prog) \<Rightarrow> 'a prog" where
  "try_except m h = (\<lambda>s. case m s of (Inl e, s') \<Rightarrow> h e s' | (Inr x, s') \<Rightarrow> (Inr x, s'))"

text \<open>\<open>datetime.now()\<close>.\<close>

definition datetime_now :: "int prog" where
  "datetime_now = (\<lambda>s. (Inr (clock s), s))"

definition modify :: "(state \<Rightarrow> state) \<Rightarrow> unit prog" where
  "modify f = (\<lambda>s. (Inr (), f s))"

definition update_object :: "string \<Rightarrow> (connection \<Rightarrow> connection) \<Rightarrow> state \<Rightarrow> state" where
  "update_object cid f s = s\<lparr>objects := (objects s)(cid := f (objects s cid))\<rparr>"

subsection \<open>Redis commands\<close>

definition key_exists :: "redis \<Rightarrow> string \<Rightarrow> bool" where
  "key_exists r k \<longleftrightarrow>
     r_hashes r k \<noteq> None \<or> r_sets r k \<noteq> [] \<or> r_lists r k \<noteq> [] \<or> r_strings r k \<noteq> None"

text \<open>
  \<open>LRANGE\<close> and \<open>LTRIM\<close> take inclusive indices; a negative index counts from the end
  of the list (\<open>-1\<close> is the last element). A negative start is raised to 0, a stop beyond
  the end is the end, and a start after the stop gives the empty list.
\<close>

definition list_range :: "'a list \<Rightarrow> int \<Rightarrow> int \<Rightarrow> 'a list" where
  "list_range xs start stop =
     (let n = int (length xs);
          a = (if start < 0 then max 0 (n + start) else start);
          b = (if stop < 0 then n + stop else stop)
      in if a > b \<or> a \<ge> n then [] else take (nat (b - a + 1)) (drop (nat a) xs))"

definition redis_cmd :: "(redis \<Rightarrow> redis) \<Rightarrow> unit prog" where
  "redis_cmd f = (\<lambda>s. if r_up (redis s) then (Inr (), s\<lparr>redis := f (redis s)\<rparr>)
                       else (Inl RedisError, s))"

definition redis_hset :: "string \<Rightarrow> message \<Rightarrow> unit prog" where
  "redis_hset k mapping =
     redis_cmd (\<lambda>r. r\<lparr>r_hashes := (r_hashes r)
        (k := Some (fold (\<lambda>(f, v) h. dict_set h f v) mapping
                      (case r_hashes r k of None \<Rightarrow> [] | Some h \<Rightarrow> h)))\<rparr>)"

text \<open>The key \<open>k\<close> leaves the store, whatever it held.\<close>

definition delete_key :: "string \<Rightarrow> redis \<Rightarrow> redis" where
  "delete_key k r =
     r\<lparr>r_hashes := (r_hashes r)(k := None), r_sets := (r_sets r)(k := []),
       r_lists := (r_lists r)(k := []), r_strings := (r_strings r)(k := None),
       r_ttl := (r_ttl r)(k := None)\<rparr>"

text \<open>
  \<open>EXPIRE key seconds\<close>: a time to live that is not positive deletes the key at
  once; a key that does not exist is left alone.
\<close>

definition redis_expire :: "string \<Rightarrow> int \<Rightarrow> unit prog" where
  "redis_expire k secs =
     redis_cmd (\<lambda>r. if secs \<le> 0 then delete_key k r
                     else if key_exists r k then r\<lparr>r_ttl := (r_ttl r)(k := Some secs)\<rparr>
                     else r)"

definition redis_delete :: "string \<Rightarrow> unit prog" where
  "redis_delete k = redis_cmd (delete_key k)"

definition redis_sadd :: "string \<Rightarrow> string \<Rightarrow> unit prog" where
  "redis_sadd k x = redis_cmd (\<lambda>r. r\<lparr>r_sets := (r_sets r)(k := set_add x (r_sets r k))\<rparr>)"

definition redis_srem :: "string \<Rightarrow> string \<Rightarrow> unit prog" where
  "redis_srem k x =
     redis_cmd (\<lambda>r. let xs = set_discard x (r_sets r k)
                     in r\<lparr>r_sets := (r_sets r)(k := xs),
                          r_ttl := (if xs = [] \<and> r_sets r k \<noteq> [] then (r_ttl r)(k := None)
                                    else r_ttl r)\<rparr>)"

definition redis_lpush :: "string \<Rightarrow> wire \<Rightarrow> unit prog" where
  "redis_lpush k v = redis_cmd (\<lambda>r. r\<lparr>r_lists := (r_lists r)(k := v # r_lists r k)\<rparr>)"

definition redis_ltrim :: "string \<Rightarrow> int \<Rightarrow> int \<Rightarrow> unit prog" where
  "redis_ltrim k start stop =
     redis_cmd (\<lambda>r. let xs = list_range (r_lists r k) start stop
                     in r\<lparr>r_lists := (r_lists r)(k := xs),
                          r_ttl := (if xs = [] \<and> r_lists r k \<noteq> [] then (r_ttl r)(k := None)
                                    else r_ttl r)\<rparr>)"

text \<open>
  \<open>SET key value EX seconds\<close>: Redis refuses an expire time that is not positive
  (\<open>invalid expire time in 'set' command\<close>), which the client raises; nothing is
  stored then.
\<close>

definition redis_set_ex :: "string \<Rightarrow> json \<Rightarrow> int \<Rightarrow> unit prog" where
  "redis_set_ex k v secs =
     (if secs \<le> 0 then raiseE RedisError
      else redis_cmd (\<lambda>r. r\<lparr>r_strings := (r_strings r)(k := Some v),
                            r_ttl := (r_ttl r)(k := Some secs)\<rparr>))"

definition redis_lrange :: "string \<Rightarrow> int \<Rightarrow> int \<Rightarrow> wire list prog" where
  "redis_lrange k start stop =
     (\<lambda>s. if r_up (redis s) then (Inr (list_range (r_lists (redis s) k) start stop), s)
           else (Inl RedisError, s))"

text \<open>The keys, as the f-strings of the source build them.\<close>

definition connection_key :: "config \<Rightarrow> string \<Rightarrow> string" where
  "connection_key cfg cid = REDIS_PREFIX cfg @ '':connection:'' @ cid"

definition subscribers_key :: "config \<Rightarrow> string \<Rightarrow> string" where
  "subscribers_key cfg ch = REDIS_PREFIX cfg @ '':channel:'' @ ch @ '':subscribers''"

definition messages_key :: "config \<Rightarrow> string \<Rightarrow> string" where
  "messages_key cfg ch = REDIS_PREFIX cfg @ '':channel:'' @ ch @ '':messages''"

definition last_activity_key :: "config \<Rightarrow> string \<Rightarrow> string" where
  "last_activity_key cfg ch = REDIS_PREFIX cfg @ '':channel:'' @ ch @ '':last_activity''"

subsection \<open>WebSocketConnection\<close>

text \<open>\<open>x or ""\<close> on an optional string.\<close>

definition or_empty :: "string option \<Rightarrow> string" where
  "or_empty x = (case x of None \<Rightarrow> [] | Some v \<Rightarrow> v)"

text \<open>\<open>WebSocketConnection.__init__\<close>, at the instant \<open>now\<close>.\<close>

definition WebSocketConnection :: "string \<Rightarrow> websocket \<Rightarrow> string option \<Rightarrow> int \<Rightarrow> connection" where
  "WebSocketConnection cid ws uid now =
     \<lparr>connection_id = cid, websocket = ws, user_id = uid,
      connected_at = now, last_seen = now,
      subscribed_channels = [], channel_configs = (\<lambda>_. None),
      user_agent = ws_user_agent ws, ip_address = ws_client_host ws\<rparr>"

text \<open>
  \<open>WebSocketConnection.send_message\<close>: the text goes out and \<open>last_seen\<close> is set to
  the current instant; when the transport raises, the exception is logged and raised
  again.
\<close>

definition send_message :: "string \<Rightarrow> message \<Rightarrow> unit prog" where
  "send_message cid m =
     (\<lambda>s. if ws_open (websocket (objects s cid))
           then (Inr (), update_object cid
                   (\<lambda>c. c\<lparr>websocket := (websocket c)\<lparr>ws_sent := ws_sent (websocket c) @ [m]\<rparr>,
                           last_seen := clock s\<rparr>) s)
           else (Inl TransportError, s))"

text \<open>\<open>websocket.accept()\<close>.\<close>

definition websocket_accept :: "string \<Rightarrow> unit prog" where
  "websocket_accept cid =
     (\<lambda>s. if ws_open (websocket (objects s cid)) then (Inr (), s) else (Inl TransportError, s))"

subsection \<open>ConnectionManager\<close>

record ChannelSubscription =
  sub_channel :: string
  sub_event :: "string option"
  sub_config :: "message option"

record BroadcastMessage =
  bc_channel :: string
  bc_event :: string
  bc_payload :: message
  exclude_user_ids :: "string list option"
  include_user_ids :: "string list option"
  persist :: bool

record broadcast_result =
  message_id :: string
  sent_count :: nat
  failed_count :: nat

fun truthy_list :: "'a list option \<Rightarrow> bool" where
  "truthy_list None = False"
| "truthy_list (Some xs) = (xs \<noteq> [])"

definition store_connection_info :: "config \<Rightarrow> string \<Rightarrow> unit prog" where
  "store_connection_info cfg cid =
     (\<lambda>s. let c = objects s cid in
        bindE (redis_hset (connection_key cfg (connection_id c))
                 [(''connection_id'', JStr (connection_id c)),
                  (''user_id'', JStr (or_empty (user_id c))),
                  (''connected_at'', isoformat (connected_at c)),
                  (''last_seen'', isoformat (last_seen c)),
                  (''user_agent'', JStr (or_empty (user_agent c))),
                  (''ip_address'', JStr (or_empty (ip_address c)))])
          (\<lambda>_. redis_expire (connection_key cfg (connection_id c)) (CONNECTION_TIMEOUT cfg)) s)"

definition remove_connection_info :: "config \<Rightarrow> string \<Rightarrow> unit prog" where
  "remove_connection_info cfg cid = redis_delete (connection_key cfg cid)"

text \<open>
  \<open>connect\<close>. The cap is checked first, and only for a truthy user id; nothing has
  been touched when it raises. \<open>cid\<close> is the value \<open>uuid.uuid4()\<close> returned.
  \<open>register_connection\<close> is the registration: the entry of \<open>active_connections\<close>
  (a new key goes last) and, for a truthy user id, the entry in the user's set.
\<close>

definition register_connection :: "string \<Rightarrow> string option \<Rightarrow> state \<Rightarrow> state" where
  "register_connection cid uid s =
     (let s = s\<lparr>active_connections := set_add cid (active_connections s)\<rparr>
      in if truthy_str uid
         then s\<lparr>user_connections := (user_connections s)
                (the uid \<mapsto> set_add cid (get_set (user_connections s) (the uid)))\<rparr>
         else s)"

definition connect :: "config \<Rightarrow> string \<Rightarrow> websocket \<Rightarrow> string option \<Rightarrow> string prog" where
  "connect cfg cid ws uid =
     (\<lambda>s. if truthy_str uid \<and>
              MAX_CONNECTIONS_PER_USER cfg \<le> int (length (get_set (user_connections s) (the uid)))
           then (Inl (HTTPException 429), s)
           else
             bindE (modify (\<lambda>s. s\<lparr>objects := (objects s)
                                       (cid := WebSocketConnection cid ws uid (clock s))\<rparr>))
             (\<lambda>_. bindE (websocket_accept cid)
             (\<lambda>_. bindE (modify (register_connection cid uid))
             (\<lambda>_. bindE (store_connection_info cfg cid)
             (\<lambda>_. bindE (bindE datetime_now
                                   (\<lambda>now. send_message cid
                                      [(''type'', JStr ''connection_ack''),
                                       (''connection_id'', JStr cid),
                                       (''timestamp'', isoformat now)]))
             (\<lambda>_. returnE cid))))) s)"

text \<open>
  The dictionary updates of \<open>unsubscribe_channel\<close>: the connection leaves the
  channel's set, an emptied set is deleted, and the channel leaves the connection's own
  set and configurations.
\<close>

definition discard_subscription :: "string \<Rightarrow> string \<Rightarrow> state \<Rightarrow> state" where
  "discard_subscription cid channel s =
     update_object cid
       (\<lambda>c. c\<lparr>subscribed_channels := set_discard channel (subscribed_channels c),
               channel_configs := (channel_configs c)(channel := None)\<rparr>)
       (case channel_subscriptions s channel of
          None \<Rightarrow> s
        | Some subs \<Rightarrow>
            (let subs' = set_discard cid subs
             in s\<lparr>channel_subscriptions := (channel_subscriptions s)
                    (channel := (if subs' = [] then None else Some subs'))\<rparr>))"

text \<open>
  \<open>unsubscribe_channel\<close>: the dictionaries first, then Redis and the acknowledgement,
  either of which may raise.
\<close>

definition unsubscribe_channel :: "config \<Rightarrow> string \<Rightarrow> string \<Rightarrow> unit prog" where
  "unsubscribe_channel cfg cid channel =
     (\<lambda>s. if cid \<notin> set (active_connections s) then (Inr (), s)
           else
             bindE (modify (discard_subscription cid channel))
             (\<lambda>_. bindE (redis_srem (subscribers_key cfg channel) cid)
             (\<lambda>_. bindE datetime_now
                            (\<lambda>now. send_message cid
                               [(''type'', JStr ''unsubscription_ack''),
                                (''channel'', JStr channel),
                                (''timestamp'', isoformat now)]))) s)"

text \<open>The loop of \<open>disconnect\<close> over a copy of the connection's channels.\<close>

fun unsubscribe_each :: "config \<Rightarrow> string \<Rightarrow> string list \<Rightarrow> unit prog" where
  "unsubscribe_each cfg cid [] = returnE ()"
| "unsubscribe_each cfg cid (channel # channels) =
     bindE (unsubscribe_channel cfg cid channel) (\<lambda>_. unsubscribe_each cfg cid channels)"

text \<open>\<open>del self.active_connections[connection_id]\<close>.\<close>

definition del_active :: "string \<Rightarrow> unit prog" where
  "del_active cid =
     (\<lambda>s. if cid \<in> set (active_connections s)
           then (Inr (), s\<lparr>active_connections := removeAll cid (active_connections s)\<rparr>)
           else (Inl KeyError, s))"

text \<open>
  The update of \<open>user_connections\<close> in \<open>disconnect\<close>: the id leaves its user's set,
  and an emptied set is deleted.
\<close>

definition discard_user_connection :: "string \<Rightarrow> string option \<Rightarrow> state \<Rightarrow> state" where
  "discard_user_connection cid uid s =
     (if truthy_str uid \<and> user_connections s (the uid) \<noteq> None
      then (let conns = set_discard cid (get_set (user_connections s) (the uid))
            in s\<lparr>user_connections := (user_connections s)
                   (the uid := (if conns = [] then None else Some conns))\<rparr>)
      else s)"

definition disconnect :: "config \<Rightarrow> string \<Rightarrow> unit prog" where
  "disconnect cfg cid =
     (\<lambda>s. if cid \<notin> set (active_connections s) then (Inr (), s)
           else
             (let uid = user_id (objects s cid) in
              bindE (unsubscribe_each cfg cid (subscribed_channels (objects s cid)))
              (\<lambda>_. bindE (modify (discard_user_connection cid uid))
              (\<lambda>_. bindE (del_active cid)
              (\<lambda>_. remove_connection_info cfg cid)))) s)"

text \<open>
  \<open>_send_channel_history\<close>: at most 50 entries from the head of the list (the newest,
  since messages are pushed at the head), reversed; an entry that does not decode, is not
  a dictionary or cannot be sent is logged and skipped; then the end marker. Whatever
  raises outside the inner \<open>try\<close> is logged and swallowed by the outer one.
\<close>

definition replay_one :: "string \<Rightarrow> wire \<Rightarrow> unit prog" where
  "replay_one cid message_data =
     (case json_loads message_data of
        None \<Rightarrow> raiseE JSONDecodeError
      | Some (JDict d) \<Rightarrow> send_message cid (dict_set d ''type'' (JStr ''history''))
      | Some _ \<Rightarrow> raiseE TypeError)"

fun replay_each :: "string \<Rightarrow> wire list \<Rightarrow> unit prog" where
  "replay_each cid [] = returnE ()"
| "replay_each cid (message_data # rest) =
     bindE (try_except (replay_one cid message_data) (\<lambda>e. returnE ()))
           (\<lambda>_. replay_each cid rest)"

definition send_channel_history :: "config \<Rightarrow> string \<Rightarrow> string \<Rightarrow> unit prog" where
  "send_channel_history cfg cid channel =
     try_except
       (bindE (redis_lrange (messages_key cfg channel) 0 49)
        (\<lambda>messages. bindE (replay_each cid (rev messages))
        (\<lambda>_. bindE datetime_now
                       (\<lambda>now. send_message cid
                          [(''type'', JStr ''history_end''),
                           (''channel'', JStr channel),
                           (''timestamp'', isoformat now)]))))
       (\<lambda>e. returnE ())"

text \<open>
  \<open>subscribe_channel\<close>. \<open>add_subscription\<close> is its dictionary updates: the channel's
  set is created when absent and takes the connection, the connection takes the channel
  and its configuration. The message of the \<open>ValueError\<close> is "the connection does not
  exist". \<open>subscription.config\<close> is \<open>None\<close> when the frame carried \<open>"config": null\<close>;
  \<open>None.get\<close> raises.
\<close>

definition add_subscription :: "string \<Rightarrow> ChannelSubscription \<Rightarrow> state \<Rightarrow> state" where
  "add_subscription cid subscription s =
     (let channel = sub_channel subscription in
      update_object cid
        (\<lambda>c. c\<lparr>subscribed_channels := set_add channel (subscribed_channels c),
                channel_configs := (channel_configs c)(channel \<mapsto> sub_config subscription)\<rparr>)
        (s\<lparr>channel_subscriptions := (channel_subscriptions s)
              (channel \<mapsto> set_add cid (get_set (channel_subscriptions s) channel))\<rparr>))"

definition subscribe_channel :: "config \<Rightarrow> string \<Rightarrow> ChannelSubscription \<Rightarrow> unit prog" where
  "subscribe_channel cfg cid subscription =
     (\<lambda>s. if cid \<notin> set (active_connections s)
           then (Inl (ValueError ''connection does not exist''), s)
           else
             (let channel = sub_channel subscription in
              bindE (modify (add_subscription cid subscription))
              (\<lambda>_. bindE (redis_sadd (subscribers_key cfg channel) cid)
              (\<lambda>_. bindE (bindE datetime_now
                                    (\<lambda>now. send_message cid
                                       [(''type'', JStr ''subscription_ack''),
                                        (''channel'', JStr channel),
                                        (''timestamp'', isoformat now)]))
              (\<lambda>_. case sub_config subscription of
                      None \<Rightarrow> raiseE AttributeError
                    | Some config \<Rightarrow>
                        if truthy (dict_get_default config ''send_history'' (JBool False))
                        then send_channel_history cfg cid channel
                        else returnE ())))) s)"

text \<open>
  \<open>_persist_message\<close>: push at the head, trim to the indices
  \<open>0 .. MAX_MESSAGES_PER_CHANNEL - 1\<close>, set the expiry, record the last activity.
  None of the four commands is guarded: an error of Redis leaves the function, and with
  a \<open>MESSAGE_RETENTION_DAYS\<close> that is not positive the expiry deletes the list and the
  last command is refused.
\<close>

definition persist_message :: "config \<Rightarrow> string \<Rightarrow> message \<Rightarrow> unit prog" where
  "persist_message cfg channel m =
     bindE (redis_lpush (messages_key cfg channel) (json_dumps m))
     (\<lambda>_. bindE (redis_ltrim (messages_key cfg channel) 0 (MAX_MESSAGES_PER_CHANNEL cfg - 1))
     (\<lambda>_. bindE (redis_expire (messages_key cfg channel) (MESSAGE_RETENTION_DAYS cfg * 24 * 3600))
     (\<lambda>_. bindE datetime_now
             (\<lambda>now. redis_set_ex (last_activity_key cfg channel) (isoformat now)
                      (MESSAGE_RETENTION_DAYS cfg * 24 * 3600)))))"

text \<open>
  The filters of \<open>broadcast_to_channel\<close>. Both are guarded by the truthiness of the
  list: \<open>None\<close> and \<open>[]\<close> alike leave the subscribers as they are.
\<close>

definition include_filter :: "state \<Rightarrow> string list \<Rightarrow> string list \<Rightarrow> string list" where
  "include_filter s users subscribers =
     fold (\<lambda>u filtered. set_update filtered
             (filter (\<lambda>c. c \<in> set subscribers) (get_set (user_connections s) u)))
          users []"

definition excluded_connections :: "state \<Rightarrow> string list \<Rightarrow> string list" where
  "excluded_connections s users =
     fold (\<lambda>u excluded. set_update excluded (get_set (user_connections s) u)) users []"

definition broadcast_targets :: "state \<Rightarrow> BroadcastMessage \<Rightarrow> string list" where
  "broadcast_targets s msg =
     (let subscribers = get_set (channel_subscriptions s) (bc_channel msg);
          subscribers = (if truthy_list (include_user_ids msg)
                         then include_filter s (the (include_user_ids msg)) subscribers
                         else subscribers);
          subscribers = (if truthy_list (exclude_user_ids msg)
                         then filter (\<lambda>c. c \<notin> set (excluded_connections s (the (exclude_user_ids msg))))
                                subscribers
                         else subscribers)
      in subscribers)"

text \<open>The sending loop: a failed send is counted and the loop goes on.\<close>

fun deliver :: "string list \<Rightarrow> message \<Rightarrow> nat \<times> nat \<Rightarrow> state \<Rightarrow> (nat \<times> nat) \<times> state" where
  "deliver [] m (sent, failed) s = ((sent, failed), s)"
| "deliver (cid # cids) m (sent, failed) s =
     (if cid \<in> set (active_connections s)
      then (case send_message cid m s of
              (Inr _, s') \<Rightarrow> deliver cids m (sent + 1, failed) s'
            | (Inl _, s') \<Rightarrow> deliver cids m (sent, failed + 1) s')
      else deliver cids m (sent, failed) s)"

definition broadcast_message_of :: "string \<Rightarrow> BroadcastMessage \<Rightarrow> int \<Rightarrow> message" where
  "broadcast_message_of mid msg now =
     [(''type'', JStr ''broadcast''),
      (''channel'', JStr (bc_channel msg)),
      (''event'', JStr (bc_event msg)),
      (''payload'', JDict (bc_payload msg)),
      (''message_id'', JStr mid),
      (''timestamp'', isoformat now)]"

text \<open>\<open>broadcast_to_channel\<close>; \<open>mid\<close> is the value \<open>uuid.uuid4()\<close> returned.\<close>

definition broadcast_to_channel :: "config \<Rightarrow> string \<Rightarrow> BroadcastMessage \<Rightarrow> broadcast_result prog" where
  "broadcast_to_channel cfg mid msg =
     (\<lambda>s. let ws_message = broadcast_message_of mid msg (clock s) in
        bindE (if persist msg then persist_message cfg (bc_channel msg) ws_message
               else returnE ())
        (\<lambda>_ s. case deliver (broadcast_targets s msg) ws_message (0, 0) s of
                  ((sent, failed), s') \<Rightarrow>
                    (Inr \<lparr>message_id = mid, sent_count = sent, failed_count = failed\<rparr>, s')) s)"

subsection \<open>The heartbeat loop\<close>

text \<open>
  One pass of the body of \<open>_heartbeat_loop\<close> (the sleep between two passes is left
  out). \<open>total_seconds()\<close> of a difference of instants is its microsecond count divided
  by \<open>10^6\<close>, so the comparison with \<open>CONNECTION_TIMEOUT\<close> seconds is the comparison
  of the count with \<open>CONNECTION_TIMEOUT * 10^6\<close>.
\<close>

fun heartbeat_scan :: "config \<Rightarrow> int \<Rightarrow> string list \<Rightarrow> string list \<Rightarrow> state \<Rightarrow> string list \<times> state" where
  "heartbeat_scan cfg current_time [] disconnected s = (disconnected, s)"
| "heartbeat_scan cfg current_time (cid # cids) disconnected s =
     (case send_message cid [(''type'', JStr ''heartbeat''),
                             (''timestamp'', isoformat current_time)] s of
        (Inr _, s') \<Rightarrow>
          heartbeat_scan cfg current_time cids
            (if current_time - last_seen (objects s' cid) > CONNECTION_TIMEOUT cfg * 1000000
             then disconnected @ [cid] else disconnected) s'
      | (Inl _, s') \<Rightarrow> heartbeat_scan cfg current_time cids (disconnected @ [cid]) s')"

fun disconnect_each :: "config \<Rightarrow> string list \<Rightarrow> unit prog" where
  "disconnect_each cfg [] = returnE ()"
| "disconnect_each cfg (cid # cids) =
     bindE (disconnect cfg cid) (\<lambda>_. disconnect_each cfg cids)"

definition heartbeat_pass :: "config \<Rightarrow> unit prog" where
  "heartbeat_pass cfg =
     try_except
       (\<lambda>s. case heartbeat_scan cfg (clock s) (active_connections s) [] s of
               (disconnected, s') \<Rightarrow> disconnect_each cfg disconnected s')
       (\<lambda>e. returnE ())"

subsection \<open>The endpoint\<close>

text \<open>
  What \<open>websocket.receive_text()\<close> yields: the client has gone
  (\<open>WebSocketDisconnect\<close>), or a text, of which the endpoint looks at the length of the
  UTF-8 encoding and at what \<open>json.loads\<close> makes of it.
\<close>

datatype ws_input = Closed | Text nat wire

definition receive_message :: "config \<Rightarrow> string \<Rightarrow> ws_input \<Rightarrow> json prog" where
  "receive_message cfg cid inp =
     (\<lambda>s. case inp of
             Closed \<Rightarrow> (Inl WebSocketDisconnect, s)
           | Text nbytes data \<Rightarrow>
               if int nbytes > MAX_MESSAGE_SIZE cfg then (Inl (ValueError ''message too large''), s)
               else (case json_loads data of
                       None \<Rightarrow> (Inl JSONDecodeError, s)
                     | Some message \<Rightarrow>
                         (Inr message, update_object cid (\<lambda>c. c\<lparr>last_seen := clock s\<rparr>) s)))"

text \<open>\<open>'type' in message\<close> for each kind of decoded value.\<close>

fun starts_with :: "'a list \<Rightarrow> 'a list \<Rightarrow> bool" where
  "starts_with [] ys = True"
| "starts_with (x # xs) [] = False"
| "starts_with (x # xs) (y # ys) = (x = y \<and> starts_with xs ys)"

fun substring :: "'a list \<Rightarrow> 'a list \<Rightarrow> bool" where
  "substring xs [] = (xs = [])"
| "substring xs (y # ys) = (starts_with xs (y # ys) \<or> substring xs ys)"

fun has_type :: "json \<Rightarrow> error + bool" where
  "has_type (JDict d) = Inr (map_of d ''type'' \<noteq> None)"
| "has_type (JList xs) = Inr (JStr ''type'' \<in> set xs)"
| "has_type (JStr s) = Inr (substring ''type'' s)"
| "has_type _ = Inl TypeError"

text \<open>
  The constructors of the two pydantic models, on the values the endpoint passes: a
  \<open>str\<close> field takes a string, an \<open>Optional\<close> field also \<open>None\<close>, a \<open>Dict\<close> field
  a dictionary; anything else is a validation error.
\<close>

definition make_ChannelSubscription :: "json \<Rightarrow> json \<Rightarrow> json \<Rightarrow> error + ChannelSubscription" where
  "make_ChannelSubscription channel event config =
     (case (channel,
            (case event of JStr e \<Rightarrow> Some (Some e) | JNull \<Rightarrow> Some None | _ \<Rightarrow> None),
            (case config of JDict d \<Rightarrow> Some (Some d) | JNull \<Rightarrow> Some None | _ \<Rightarrow> None)) of
        (JStr c, Some e, Some d) \<Rightarrow> Inr \<lparr>sub_channel = c, sub_event = e, sub_config = d\<rparr>
      | _ \<Rightarrow> Inl ValidationError)"

definition make_BroadcastMessage :: "json \<Rightarrow> json \<Rightarrow> json \<Rightarrow> error + BroadcastMessage" where
  "make_BroadcastMessage channel event payload =
     (case (channel, event, payload) of
        (JStr c, JStr e, JDict p) \<Rightarrow>
          Inr \<lparr>bc_channel = c, bc_event = e, bc_payload = p,
               exclude_user_ids = None, include_user_ids = None, persist = True\<rparr>
      | _ \<Rightarrow> Inl ValidationError)"

text \<open>
  \<open>unsubscribe_channel\<close> as the endpoint calls it, with whatever truthy value the frame
  had under \<open>channel\<close>. A list or a dictionary is unhashable, and the first dictionary
  lookup raises; a number or a boolean is a key none of the dictionaries has (their keys
  are strings), so only Redis, whose key is built with \<open>str\<close>, and the acknowledgement
  see it.
\<close>

definition py_str :: "json \<Rightarrow> string" where
  "py_str j = (case j of JStr s \<Rightarrow> s | JInt i \<Rightarrow> int_str i
               | JBool b \<Rightarrow> (if b then ''True'' else ''False'') | _ \<Rightarrow> [])"

definition unsubscribe_any :: "config \<Rightarrow> string \<Rightarrow> json \<Rightarrow> unit prog" where
  "unsubscribe_any cfg cid channel =
     (case channel of
        JStr ch \<Rightarrow> unsubscribe_channel cfg cid ch
      | JList _ \<Rightarrow> (\<lambda>s. if cid \<notin> set (active_connections s) then (Inr (), s)
                         else (Inl TypeError, s))
      | JDict _ \<Rightarrow> (\<lambda>s. if cid \<notin> set (active_connections s) then (Inr (), s)
                         else (Inl TypeError, s))
      | _ \<Rightarrow> (\<lambda>s. if cid \<notin> set (active_connections s) then (Inr (), s)
                   else bindE (redis_srem (subscribers_key cfg (py_str channel)) cid)
                        (\<lambda>_. bindE datetime_now
                                       (\<lambda>now. send_message cid
                                          [(''type'', JStr ''unsubscription_ack''),
                                           (''channel'', channel),
                                           (''timestamp'', isoformat now)])) s))"

text \<open>
  The dispatch on \<open>message['type']\<close> inside the loop of \<open>websocket_endpoint\<close>;
  \<open>mid\<close> is the id a broadcast would draw.
\<close>

definition dispatch :: "config \<Rightarrow> string \<Rightarrow> string option \<Rightarrow> string \<Rightarrow> message \<Rightarrow> unit prog" where
  "dispatch cfg cid uid mid d =
     (let message_type = dict_get d ''type'' in
      if message_type = JStr ''subscribe'' then
        (let channel = dict_get d ''channel'' in
         if truthy channel
         then (case make_ChannelSubscription channel
                      (dict_get_default d ''event'' (JStr ''*''))
                      (dict_get_default d ''config'' (JDict [])) of
                 Inl e \<Rightarrow> raiseE e
               | Inr subscription \<Rightarrow> subscribe_channel cfg cid subscription)
         else returnE ())
      else if message_type = JStr ''unsubscribe'' then
        (let channel = dict_get d ''channel'' in
         if truthy channel then unsubscribe_any cfg cid channel else returnE ())
      else if message_type = JStr ''ping'' then
        bindE datetime_now
          (\<lambda>now. send_message cid
             [(''type'', JStr ''pong''),
              (''timestamp'', isoformat now)])
      else if message_type = JStr ''broadcast'' then
        (if truthy_str uid
         then (let channel = dict_get d ''channel'';
                   event = dict_get d ''event'';
                   payload = dict_get d ''payload''
               in if truthy channel \<and> truthy event \<and> truthy payload
                  then (case make_BroadcastMessage channel event payload of
                          Inl e \<Rightarrow> raiseE e
                        | Inr broadcast_msg \<Rightarrow>
                            bindE (broadcast_to_channel cfg mid broadcast_msg) (\<lambda>_. returnE ()))
                  else returnE ())
         else returnE ())
      else returnE ())"

definition process_message :: "config \<Rightarrow> string \<Rightarrow> string option \<Rightarrow> string \<Rightarrow> json \<Rightarrow> unit prog" where
  "process_message cfg cid uid mid message =
     (if \<not> truthy message then returnE ()
      else (case has_type message of
              Inl e \<Rightarrow> raiseE e
            | Inr False \<Rightarrow> returnE ()
            | Inr True \<Rightarrow>
                (case message of
                   JDict d \<Rightarrow> dispatch cfg cid uid mid d
                 | _ \<Rightarrow> raiseE TypeError)))"

text \<open>\<open>str(e)\<close> of an exception, for the error frame.\<close>

definition error_str :: "error \<Rightarrow> string" where
  "error_str e =
     (case e of
        HTTPException n \<Rightarrow> nat_str n
      | ValueError m \<Rightarrow> m
      | KeyError \<Rightarrow> ''KeyError''
      | TypeError \<Rightarrow> ''TypeError''
      | AttributeError \<Rightarrow> ''AttributeError''
      | ValidationError \<Rightarrow> ''ValidationError''
      | JSONDecodeError \<Rightarrow> ''JSONDecodeError''
      | WebSocketDisconnect \<Rightarrow> ''WebSocketDisconnect''
      | TransportError \<Rightarrow> ''TransportError''
      | RedisError \<Rightarrow> ''RedisError'')"

definition error_frame :: "error \<Rightarrow> int \<Rightarrow> message" where
  "error_frame e now =
     [(''type'', JStr ''error''), (''message'', JStr (error_str e)), (''timestamp'', isoformat now)]"

text \<open>
  One turn of the \<open>while True\<close> loop. \<open>WebSocketDisconnect\<close> breaks the loop; any
  other exception is answered with an error frame and the loop goes on; when that frame
  cannot be sent the exception leaves the loop.
\<close>

datatype loop_control = Continue | Break | Escape error

definition endpoint_turn :: "config \<Rightarrow> string \<Rightarrow> string option \<Rightarrow> string \<Rightarrow> ws_input \<Rightarrow> state \<Rightarrow> loop_control \<times> state" where
  "endpoint_turn cfg cid uid mid inp s =
     (case bindE (receive_message cfg cid inp) (process_message cfg cid uid mid) s of
        (Inr _, s') \<Rightarrow> (Continue, s')
      | (Inl WebSocketDisconnect, s') \<Rightarrow> (Break, s')
      | (Inl e, s') \<Rightarrow>
          (case send_message cid (error_frame e (clock s')) s' of
             (Inr _, s'') \<Rightarrow> (Continue, s'')
           | (Inl e', s'') \<Rightarrow> (Escape e', s'')))"

text \<open>
  The loop over the frames that arrive, each paired with the id a broadcast would draw.
  \<open>Serving\<close>: every frame was handled and the loop waits for the next one.
\<close>

datatype endpoint_status = Serving | Finished

fun message_loop :: "config \<Rightarrow> string \<Rightarrow> string option \<Rightarrow> (string \<times> ws_input) list \<Rightarrow> state \<Rightarrow> endpoint_status \<times> state" where
  "message_loop cfg cid uid [] s = (Serving, s)"
| "message_loop cfg cid uid ((mid, inp) # rest) s =
     (case endpoint_turn cfg cid uid mid inp s of
        (Continue, s') \<Rightarrow> message_loop cfg cid uid rest s'
      | (_, s') \<Rightarrow> (Finished, s'))"

text \<open>
  \<open>websocket_endpoint\<close>, with the user id \<open>optional_verify_token\<close> found. When
  \<open>connect\<close> raises, \<open>connection_id\<close> was never bound and the \<open>finally\<close> clause does
  nothing; otherwise leaving the loop ends in \<open>disconnect\<close> of the id
  \<open>connect\<close> returned.
\<close>

definition websocket_endpoint :: "config \<Rightarrow> string \<Rightarrow> websocket \<Rightarrow> string option \<Rightarrow> (string \<times> ws_input) list \<Rightarrow> state \<Rightarrow> endpoint_status \<times> state" where
  "websocket_endpoint cfg cid ws uid frames s =
     (case connect cfg cid ws uid s of
        (Inl e, s') \<Rightarrow> (Finished, s')
      | (Inr conn_id, s') \<Rightarrow>
          (case message_loop cfg conn_id uid frames s' of
             (Serving, s'') \<Rightarrow> (Serving, s'')
           | (Finished, s'') \<Rightarrow> (Finished, snd (disconnect cfg conn_id s''))))"

section \<open>Invariants and example states\<close>

text \<open>The subscriber set of a channel in the Channel Index.\<close>

definition subscribers :: "state \<Rightarrow> string \<Rightarrow> string set" where
  "subscribers s ch = set (get_set (channel_subscriptions s) ch)"

text \<open>The connection ids the registry keeps for a user.\<close>

definition connections_of :: "state \<Rightarrow> string \<Rightarrow> string set" where
  "connections_of s u = set (get_set (user_connections s) u)"

text \<open>
  The bidirectional invariant of the Channel Index: a connection id is in a channel's
  set exactly when the connection is registered and has the channel in its own set.
\<close>

definition subscription_invariant :: "state \<Rightarrow> bool" where
  "subscription_invariant s \<longleftrightarrow>
     (\<forall>cid ch. cid \<in> subscribers s ch \<longleftrightarrow>
        cid \<in> set (active_connections s) \<and> ch \<in> set (subscribed_channels (objects s cid)))"

text \<open>
  The invariant of the registry: an id in a user's set is a registered connection that
  carries that (truthy) user id, and no user has an empty set.
\<close>

definition registry_invariant :: "state \<Rightarrow> bool" where
  "registry_invariant s \<longleftrightarrow>
     (\<forall>u cid. cid \<in> connections_of s u \<longrightarrow>
        u \<noteq> [] \<and> cid \<in> set (active_connections s) \<and> user_id (objects s cid) = Some u) \<and>
     (\<forall>u. user_connections s u \<noteq> Some [])"

text \<open>
  The lists that stand for sets and for the keys of \<open>active_connections\<close> have no
  duplicates.
\<close>

definition sets_wellformed :: "state \<Rightarrow> bool" where
  "sets_wellformed s \<longleftrightarrow>
     distinct (active_connections s) \<and>
     (\<forall>ch. distinct (get_set (channel_subscriptions s) ch)) \<and>
     (\<forall>u. distinct (get_set (user_connections s) u)) \<and>
     (\<forall>c. distinct (subscribed_channels (objects s c)))"

text \<open>
  What the invariants look at: the three dictionaries, and of every connection
  object its channels and its user id.
\<close>

definition registry_view ::
  "state \<Rightarrow> string list \<times> (string \<Rightarrow> string list option) \<times> (string \<Rightarrow> string list option)
     \<times> (string \<Rightarrow> string list) \<times> (string \<Rightarrow> string option)" where
  "registry_view s =
     (active_connections s, user_connections s, channel_subscriptions s,
      (\<lambda>c. subscribed_channels (objects s c)), (\<lambda>c. user_id (objects s c)))"

text \<open>A program keeps an observation \<open>g\<close> of the state, whether it returns or raises.\<close>

definition keeps :: "(state \<Rightarrow> 'a) \<Rightarrow> 'b prog \<Rightarrow> bool" where
  "keeps g m \<longleftrightarrow> (\<forall>s. g (snd (m s)) = g s)"

text \<open>
  The operations on subscriptions, and the states a sequence of them goes through; the
  state after an operation is taken whether the operation returned or raised.
\<close>

datatype operation =
    Subscribe string ChannelSubscription
  | Unsubscribe string string
  | Disconnect string

fun perform :: "config \<Rightarrow> operation \<Rightarrow> state \<Rightarrow> state" where
  "perform cfg (Subscribe cid subscription) s = snd (subscribe_channel cfg cid subscription s)"
| "perform cfg (Unsubscribe cid channel) s = snd (unsubscribe_channel cfg cid channel s)"
| "perform cfg (Disconnect cid) s = snd (disconnect cfg cid s)"

fun states_after :: "config \<Rightarrow> operation list \<Rightarrow> state \<Rightarrow> state list" where
  "states_after cfg [] s = []"
| "states_after cfg (op # ops) s = perform cfg op s # states_after cfg ops (perform cfg op s)"



text \<open>The configuration with the defaults of the source.\<close>

definition default_config :: config where
  "default_config =
     \<lparr>REDIS_PREFIX = ''suna:realtime'', MAX_CONNECTIONS_PER_USER = 10,
      MAX_MESSAGE_SIZE = 65536, CONNECTION_TIMEOUT = 300,
      MESSAGE_RETENTION_DAYS = 7, MAX_MESSAGES_PER_CHANNEL = 1000\<rparr>"

definition open_socket :: websocket where
  "open_socket = \<lparr>ws_open = True, ws_sent = [], ws_user_agent = None, ws_client_host = None\<rparr>"

definition empty_redis :: redis where
  "empty_redis =
     \<lparr>r_up = True, r_hashes = (\<lambda>_. None), r_sets = (\<lambda>_. []), r_lists = (\<lambda>_. []),
      r_strings = (\<lambda>_. None), r_ttl = (\<lambda>_. None)\<rparr>"

text \<open>\<open>ConnectionManager.__init__\<close> followed by \<open>initialize\<close>: no connection, an empty Redis.\<close>

definition ConnectionManager :: state where
  "ConnectionManager =
     \<lparr>clock = 0, objects = (\<lambda>cid. WebSocketConnection cid open_socket None 0),
      active_connections = [], user_connections = (\<lambda>_. None),
      channel_subscriptions = (\<lambda>_. None), redis = empty_redis\<rparr>"

text \<open>The three invariants together, and the programs that maintain them.\<close>

definition consistent :: "state \<Rightarrow> bool" where
  "consistent s \<longleftrightarrow> subscription_invariant s \<and> registry_invariant s \<and> sets_wellformed s"

definition maintains :: "'a prog \<Rightarrow> bool" where
  "maintains m \<longleftrightarrow> (\<forall>s. consistent s \<longrightarrow> consistent (snd (m s)))"

text \<open>
  The states the manager can be in: it starts empty; the operations of the service run
  on it, \<open>connect\<close> with an id that is not in use, as \<open>uuid4\<close> gives; and between two
  operations the environment may change whatever the registry does not hold (the clock,
  the transports, the contents and the availability of Redis).
\<close>

inductive reachable :: "config \<Rightarrow> state \<Rightarrow> bool" for cfg :: config where
  start: "reachable cfg ConnectionManager"
| environment: "reachable cfg s \<Longrightarrow> registry_view s' = registry_view s \<Longrightarrow> reachable cfg s'"
| connected: "reachable cfg s \<Longrightarrow> cid \<notin> set (active_connections s) \<Longrightarrow>
     reachable cfg (snd (connect cfg cid ws uid s))"
| disconnected: "reachable cfg s \<Longrightarrow> reachable cfg (snd (disconnect cfg cid s))"
| subscribed: "reachable cfg s \<Longrightarrow> reachable cfg (snd (subscribe_channel cfg cid subscription s))"
| unsubscribed: "reachable cfg s \<Longrightarrow> reachable cfg (snd (unsubscribe_channel cfg cid channel s))"
| broadcast: "reachable cfg s \<Longrightarrow> reachable cfg (snd (broadcast_to_channel cfg mid msg s))"
| heartbeat: "reachable cfg s \<Longrightarrow> reachable cfg (snd (heartbeat_pass cfg s))"
| turn: "reachable cfg s \<Longrightarrow> reachable cfg (snd (endpoint_turn cfg cid uid mid inp s))"

text \<open>One connection \<open>c1\<close> of the user \<open>alice\<close>.\<close>

definition alice_connected :: state where
  "alice_connected =
     snd (connect default_config ''c1'' open_socket (Some ''alice'') ConnectionManager)"

text \<open>A subscription to the channel \<open>room\<close> that asks for nothing.\<close>

definition room_subscription :: ChannelSubscription where
  "room_subscription = \<lparr>sub_channel = ''room'', sub_event = Some ''*'', sub_config = Some []\<rparr>"

text \<open>\<open>c1\<close> subscribed to \<open>room\<close>.\<close>

definition alice_in_room :: state where
  "alice_in_room = snd (subscribe_channel default_config ''c1'' room_subscription alice_connected)"




text \<open>A broadcast to the channel \<open>lobby\<close>, which nobody has subscribed to.\<close>

definition lobby_broadcast :: BroadcastMessage where
  "lobby_broadcast =
     \<lparr>bc_channel = ''lobby'', bc_event = ''note'', bc_payload = [(''n'', JInt 1)],
      exclude_user_ids = None, include_user_ids = None, persist = True\<rparr>"

text \<open>A second connection \<open>c2\<close>, of the user \<open>bob\<close>, also subscribed to \<open>room\<close>.\<close>

definition bob_connected :: state where
  "bob_connected = snd (connect default_config ''c2'' open_socket (Some ''bob'') alice_in_room)"

definition two_in_room :: state where
  "two_in_room = snd (subscribe_channel default_config ''c2'' room_subscription bob_connected)"


text \<open>
  \<open>c1\<close> subscribed to \<open>room\<close>, 301 seconds after it was last seen, with the default
  timeout of 300 seconds.
\<close>

definition stale_room :: state where
  "stale_room = alice_in_room\<lparr>clock := 301000000\<rparr>"

text \<open>A \<open>ping\<close> frame, and a \<open>broadcast\<close> frame to \<open>room\<close>.\<close>

definition ping_frame :: json where
  "ping_frame = JDict [(''type'', JStr ''ping'')]"

definition broadcast_frame :: json where
  "broadcast_frame =
     JDict [(''type'', JStr ''broadcast''), (''channel'', JStr ''room''),
            (''event'', JStr ''note''), (''payload'', JDict [(''n'', JInt 1)])]"

text \<open>An anonymous connection \<open>c3\<close> next to the two subscribers of \<open>room\<close>.\<close>

definition anonymous_connected :: state where
  "anonymous_connected = snd (connect default_config ''c3'' open_socket None two_in_room)"

text \<open>The state \<open>s\<close> with Redis not answering.\<close>

definition redis_down :: "state \<Rightarrow> state" where
  "redis_down s = s\<lparr>redis := (redis s)\<lparr>r_up := False\<rparr>\<rparr>"
section \<open>Programs and the registry\<close>

lemmas prog_defs =
  returnE_def raiseE_def bindE_def try_except_def modify_def update_object_def redis_cmd_def
  datetime_now_def

lemmas redis_defs =
  redis_hset_def redis_expire_def redis_delete_def redis_sadd_def redis_srem_def
  redis_lpush_def redis_ltrim_def redis_set_ex_def redis_lrange_def key_exists_def
  delete_key_def

lemmas example_defs =
  default_config_def open_socket_def empty_redis_def ConnectionManager_def
  WebSocketConnection_def

lemma snd_bindE:
  "snd (bindE m f s) = (case fst (m s) of Inl e \<Rightarrow> snd (m s) | Inr x \<Rightarrow> snd (f x (snd (m s))))"
  by (simp add: bindE_def split: prod.splits sum.splits)

lemma fst_bindE:
  "fst (bindE m f s) = (case fst (m s) of Inl e \<Rightarrow> Inl e | Inr x \<Rightarrow> fst (f x (snd (m s))))"
  by (simp add: bindE_def split: prod.splits sum.splits)

lemma bindE_Inr: "m s = (Inr x, s') \<Longrightarrow> bindE m f s = f x s'"
  by (simp add: bindE_def)

lemma keepsD: "keeps g m \<Longrightarrow> g (snd (m s)) = g s"
  by (simp add: keeps_def)

lemma keeps_returnE [simp]: "keeps g (returnE x)"
  by (simp add: keeps_def returnE_def)

lemma keeps_raiseE [simp]: "keeps g (raiseE e)"
  by (simp add: keeps_def raiseE_def)

lemma keeps_datetime_now [simp]: "keeps g datetime_now"
  by (simp add: keeps_def datetime_now_def)

lemma keeps_bindE: "keeps g m \<Longrightarrow> (\<And>x. keeps g (f x)) \<Longrightarrow> keeps g (bindE m f)"
  by (simp add: keeps_def snd_bindE split: sum.splits)

lemma keeps_try_except: "keeps g m \<Longrightarrow> (\<And>e. keeps g (h e)) \<Longrightarrow> keeps g (try_except m h)"
  by (auto simp: keeps_def try_except_def split: prod.splits sum.splits) (metis snd_conv)+

lemma view_bind_modify:
  "(\<And>x. keeps g (f x)) \<Longrightarrow> g (snd (bindE (modify h) f s)) = g (h s)"
  by (simp add: bindE_def modify_def keeps_def)

text \<open>Sending and the Redis commands leave the registry as it is.\<close>

lemma keeps_send_message [simp]: "keeps registry_view (send_message cid m)"
  by (simp add: keeps_def registry_view_def send_message_def update_object_def fun_eq_iff)

lemma keeps_redis_cmd [simp]: "keeps registry_view (redis_cmd f)"
  by (simp add: keeps_def registry_view_def redis_cmd_def)

lemma keeps_redis_lrange [simp]: "keeps registry_view (redis_lrange k a b)"
  by (simp add: keeps_def registry_view_def redis_lrange_def)

lemma keeps_redis [simp]:
  "keeps registry_view (redis_hset k m)"
  "keeps registry_view (redis_expire k n)"
  "keeps registry_view (redis_delete k)"
  "keeps registry_view (redis_sadd k x)"
  "keeps registry_view (redis_srem k x)"
  "keeps registry_view (redis_lpush k w)"
  "keeps registry_view (redis_ltrim k a b)"
  "keeps registry_view (redis_set_ex k v n)"
  by (simp_all add: redis_hset_def redis_expire_def redis_delete_def redis_sadd_def
        redis_srem_def redis_lpush_def redis_ltrim_def redis_set_ex_def)

lemma keeps_replay_each [simp]: "keeps registry_view (replay_each cid ws)"
  by (induction ws)
     (auto intro!: keeps_bindE keeps_try_except simp: replay_one_def
           split: option.splits json.splits)

lemma keeps_send_channel_history [simp]: "keeps registry_view (send_channel_history cfg cid ch)"
  unfolding send_channel_history_def
  by (intro keeps_try_except keeps_bindE) simp_all

lemma keeps_store_connection_info [simp]: "keeps registry_view (store_connection_info cfg cid)"
proof -
  have "keeps registry_view (bindE (redis_hset k m) (\<lambda>_. redis_expire k' n))" for k m k' n
    by (intro keeps_bindE) simp_all
  then show ?thesis by (simp add: keeps_def store_connection_info_def Let_def)
qed

lemma keeps_remove_connection_info [simp]: "keeps registry_view (remove_connection_info cfg cid)"
  by (simp add: remove_connection_info_def)

lemma view_fields:
  assumes "registry_view s' = registry_view s"
  shows "active_connections s' = active_connections s"
    and "user_connections s' = user_connections s"
    and "channel_subscriptions s' = channel_subscriptions s"
    and "subscribed_channels (objects s' c) = subscribed_channels (objects s c)"
    and "user_id (objects s' c) = user_id (objects s c)"
  using assms by (simp_all add: registry_view_def fun_eq_iff)

lemma invariant_view:
  assumes "registry_view s' = registry_view s"
  shows "subscription_invariant s' = subscription_invariant s"
  by (simp add: subscription_invariant_def subscribers_def view_fields [OF assms])

lemma registry_invariant_view:
  assumes "registry_view s' = registry_view s"
  shows "registry_invariant s' = registry_invariant s"
  by (simp add: registry_invariant_def connections_of_def view_fields [OF assms])

section \<open>The dictionary updates\<close>

lemma removeAll_Nil_iff: "removeAll x xs = [] \<longleftrightarrow> set xs \<subseteq> {x}"
  by (induction xs) auto

lemma set_set_add [simp]: "set (set_add x xs) = insert x (set xs)"
  by (auto simp: set_add_def)

lemma set_add_not_Nil [simp]: "set_add x xs \<noteq> []"
  by (auto simp: set_add_def)

lemma get_set_upd [simp]:
  "get_set (m(k \<mapsto> v)) k' = (if k' = k then v else get_set m k')"
  "get_set (m(k := None)) k' = (if k' = k then [] else get_set m k')"
  by (simp_all add: get_set_def)

lemma discard_subscription_fields:
  "active_connections (discard_subscription cid ch s) = active_connections s"
  "user_connections (discard_subscription cid ch s) = user_connections s"
  "subscribers (discard_subscription cid ch s) ch' =
     (if ch' = ch then subscribers s ch - {cid} else subscribers s ch')"
  "set (subscribed_channels (objects (discard_subscription cid ch s) c)) =
     (if c = cid then set (subscribed_channels (objects s c)) - {ch}
      else set (subscribed_channels (objects s c)))"
  "user_id (objects (discard_subscription cid ch s) c) = user_id (objects s c)"
  by (auto simp: discard_subscription_def update_object_def subscribers_def get_set_def
        set_discard_def Let_def removeAll_Nil_iff split: option.splits)

lemma add_subscription_fields:
  "active_connections (add_subscription cid sub s) = active_connections s"
  "user_connections (add_subscription cid sub s) = user_connections s"
  "subscribers (add_subscription cid sub s) ch' =
     (if ch' = sub_channel sub then insert cid (subscribers s ch') else subscribers s ch')"
  "set (subscribed_channels (objects (add_subscription cid sub s) c)) =
     (if c = cid then insert (sub_channel sub) (set (subscribed_channels (objects s c)))
      else set (subscribed_channels (objects s c)))"
  "user_id (objects (add_subscription cid sub s) c) = user_id (objects s c)"
  by (auto simp: add_subscription_def update_object_def subscribers_def Let_def)

lemma discard_user_connection_fields:
  "active_connections (discard_user_connection cid uid s) = active_connections s"
  "channel_subscriptions (discard_user_connection cid uid s) = channel_subscriptions s"
  "objects (discard_user_connection cid uid s) = objects s"
  by (simp_all add: discard_user_connection_def Let_def)

lemma discard_user_connection_users:
  "connections_of (discard_user_connection cid uid s) u =
     (if truthy_str uid \<and> u = the uid then connections_of s u - {cid} else connections_of s u)"
  "user_connections s u \<noteq> Some [] \<Longrightarrow>
     user_connections (discard_user_connection cid uid s) u \<noteq> Some []"
  by (auto simp: discard_user_connection_def connections_of_def set_discard_def Let_def
        removeAll_Nil_iff get_set_def split: option.splits)

lemma register_connection_fields:
  "active_connections (register_connection cid uid s) = set_add cid (active_connections s)"
  "channel_subscriptions (register_connection cid uid s) = channel_subscriptions s"
  "objects (register_connection cid uid s) = objects s"
  "connections_of (register_connection cid uid s) u =
     (if truthy_str uid \<and> u = the uid then insert cid (connections_of s u)
      else connections_of s u)"
  "user_connections s u \<noteq> Some [] \<Longrightarrow>
     user_connections (register_connection cid uid s) u \<noteq> Some []"
  by (auto simp: register_connection_def Let_def connections_of_def)

section \<open>Subscribe and unsubscribe\<close>

lemma view_unsubscribe:
  "registry_view (snd (unsubscribe_channel cfg cid ch s)) =
     registry_view (if cid \<in> set (active_connections s) then discard_subscription cid ch s else s)"
  unfolding unsubscribe_channel_def
  by (auto intro!: view_bind_modify keeps_bindE)

lemma view_subscribe:
  "registry_view (snd (subscribe_channel cfg cid sub s)) =
     registry_view (if cid \<in> set (active_connections s) then add_subscription cid sub s else s)"
  unfolding subscribe_channel_def
  by (auto intro!: view_bind_modify keeps_bindE simp: Let_def split: option.splits)

lemma discard_subscription_invariant:
  "subscription_invariant s \<Longrightarrow> subscription_invariant (discard_subscription cid ch s)"
  unfolding subscription_invariant_def
  by (auto simp: discard_subscription_fields)

lemma add_subscription_invariant:
  "subscription_invariant s \<Longrightarrow> cid \<in> set (active_connections s) \<Longrightarrow>
   subscription_invariant (add_subscription cid sub s)"
  unfolding subscription_invariant_def
  by (auto simp: add_subscription_fields)

lemma unsubscribe_invariant:
  "subscription_invariant s \<Longrightarrow> subscription_invariant (snd (unsubscribe_channel cfg cid ch s))"
  by (simp add: invariant_view [OF view_unsubscribe] discard_subscription_invariant)

lemma subscribe_invariant:
  "subscription_invariant s \<Longrightarrow> subscription_invariant (snd (subscribe_channel cfg cid sub s))"
  by (simp add: invariant_view [OF view_subscribe] add_subscription_invariant)

lemma subscribe_registry_invariant:
  "registry_invariant s \<Longrightarrow> registry_invariant (snd (subscribe_channel cfg cid sub s))"
  unfolding registry_invariant_view [OF view_subscribe]
  by (simp add: registry_invariant_def connections_of_def add_subscription_fields)

lemma unsubscribe_registry_invariant:
  "registry_invariant s \<Longrightarrow> registry_invariant (snd (unsubscribe_channel cfg cid ch s))"
  unfolding registry_invariant_view [OF view_unsubscribe]
  by (simp add: registry_invariant_def connections_of_def discard_subscription_fields)

lemma unsubscribe_fields:
  "active_connections (snd (unsubscribe_channel cfg cid ch s)) = active_connections s"
  "user_connections (snd (unsubscribe_channel cfg cid ch s)) = user_connections s"
  "user_id (objects (snd (unsubscribe_channel cfg cid ch s)) c) = user_id (objects s c)"
  using view_fields [OF view_unsubscribe, of cfg cid ch s]
  by (simp_all add: discard_subscription_fields split: if_splits)

lemma unsubscribe_subscribed:
  "set (subscribed_channels (objects (snd (unsubscribe_channel cfg cid ch s)) c)) =
     (if c = cid \<and> cid \<in> set (active_connections s)
      then set (subscribed_channels (objects s c)) - {ch}
      else set (subscribed_channels (objects s c)))"
  by (simp add: view_fields(4) [OF view_unsubscribe] discard_subscription_fields)

section \<open>Disconnect\<close>

lemma unsubscribe_each_invariant:
  "subscription_invariant s \<Longrightarrow> subscription_invariant (snd (unsubscribe_each cfg cid chs s))"
proof (induction chs arbitrary: s)
  case Nil
  then show ?case by (simp add: returnE_def)
next
  case (Cons ch chs)
  then show ?case
    by (simp add: snd_bindE unsubscribe_invariant split: sum.splits)
qed

lemma unsubscribe_each_fields:
  "active_connections (snd (unsubscribe_each cfg cid chs s)) = active_connections s"
  "user_connections (snd (unsubscribe_each cfg cid chs s)) = user_connections s"
  "user_id (objects (snd (unsubscribe_each cfg cid chs s)) c) = user_id (objects s c)"
  by (induction chs arbitrary: s)
     (simp_all add: returnE_def snd_bindE unsubscribe_fields split: sum.splits)

text \<open>A loop that came through has removed every channel it was given.\<close>

lemma unsubscribe_each_subscribed:
  "fst (unsubscribe_each cfg cid chs s) = Inr () \<Longrightarrow> cid \<in> set (active_connections s) \<Longrightarrow>
   set (subscribed_channels (objects (snd (unsubscribe_each cfg cid chs s)) cid)) =
     set (subscribed_channels (objects s cid)) - set chs"
proof (induction chs arbitrary: s)
  case Nil
  then show ?case by (simp add: returnE_def)
next
  case (Cons ch chs)
  from Cons.prems(1) have ok: "fst (unsubscribe_channel cfg cid ch s) = Inr ()"
    and rest: "fst (unsubscribe_each cfg cid chs (snd (unsubscribe_channel cfg cid ch s))) = Inr ()"
    by (auto simp: fst_bindE split: sum.splits)
  have "cid \<in> set (active_connections (snd (unsubscribe_channel cfg cid ch s)))"
    using Cons.prems(2) by (simp add: unsubscribe_fields)
  from Cons.IH [OF rest this] ok Cons.prems(2) show ?case
    by (auto simp: snd_bindE unsubscribe_subscribed)
qed

text \<open>What a disconnect that gets through its loop leaves in the registry.\<close>

lemma disconnect_view:
  assumes "cid \<in> set (active_connections s)"
      and "fst (unsubscribe_each cfg cid (subscribed_channels (objects s cid)) s) = Inr ()"
  shows "registry_view (snd (disconnect cfg cid s)) =
         registry_view
           ((discard_user_connection cid (user_id (objects s cid))
               (snd (unsubscribe_each cfg cid (subscribed_channels (objects s cid)) s)))
            \<lparr>active_connections := removeAll cid (active_connections s)\<rparr>)"
proof -
  let ?s1 = "snd (unsubscribe_each cfg cid (subscribed_channels (objects s cid)) s)"
  let ?s2 = "discard_user_connection cid (user_id (objects s cid)) ?s1"
  have act: "cid \<in> set (active_connections ?s2)"
    using assms(1) by (simp add: discard_user_connection_fields unsubscribe_each_fields)
  have "snd (disconnect cfg cid s) =
        snd (remove_connection_info cfg cid
               (?s2\<lparr>active_connections := removeAll cid (active_connections ?s2)\<rparr>))"
    using assms act
    by (simp add: disconnect_def Let_def snd_bindE modify_def del_active_def)
  then show ?thesis
    using keepsD [OF keeps_remove_connection_info]
    by (simp add: discard_user_connection_fields unsubscribe_each_fields)
qed

text \<open>When the loop raises, so does \<open>disconnect\<close>, and the connection stays registered.\<close>

lemma disconnect_failed_loop:
  assumes "cid \<in> set (active_connections s)"
      and "fst (unsubscribe_each cfg cid (subscribed_channels (objects s cid)) s) = Inl e"
  shows "disconnect cfg cid s =
         (Inl e, snd (unsubscribe_each cfg cid (subscribed_channels (objects s cid)) s))"
  using assms
  by (simp add: disconnect_def Let_def prod_eq_iff fst_bindE snd_bindE)

lemma disconnect_loop_ok:
  assumes "cid \<in> set (active_connections s)" and "fst (disconnect cfg cid s) = Inr ()"
  shows "fst (unsubscribe_each cfg cid (subscribed_channels (objects s cid)) s) = Inr ()"
proof (cases "fst (unsubscribe_each cfg cid (subscribed_channels (objects s cid)) s)")
  case (Inl e)
  with assms show ?thesis by (simp add: disconnect_failed_loop)
next
  case (Inr u)
  then show ?thesis by simp
qed

lemma disconnect_unknown:
  "cid \<notin> set (active_connections s) \<Longrightarrow> disconnect cfg cid s = (Inr (), s)"
  by (simp add: disconnect_def)

text \<open>A disconnect that returned has removed the id from the three dictionaries.\<close>

lemma disconnect_removes:
  assumes inv: "subscription_invariant s" and reg: "registry_invariant s"
      and act: "cid \<in> set (active_connections s)"
      and ok: "fst (unsubscribe_each cfg cid (subscribed_channels (objects s cid)) s) = Inr ()"
  shows "cid \<notin> set (active_connections (snd (disconnect cfg cid s)))"
    and "cid \<notin> connections_of (snd (disconnect cfg cid s)) u"
    and "user_connections (snd (disconnect cfg cid s)) u \<noteq> Some []"
    and "cid \<notin> subscribers (snd (disconnect cfg cid s)) ch"
proof -
  let ?s' = "snd (disconnect cfg cid s)"
  let ?chs = "subscribed_channels (objects s cid)"
  let ?s1 = "snd (unsubscribe_each cfg cid ?chs s)"
  let ?uid = "user_id (objects s cid)"
  note v = view_fields [OF disconnect_view [OF act ok]]
  have inv1: "subscription_invariant ?s1"
    using inv by (simp add: unsubscribe_each_invariant)
  have none: "subscribed_channels (objects ?s1 cid) = []"
    using unsubscribe_each_subscribed [OF ok act] by simp
  show "cid \<notin> set (active_connections ?s')"
    by (simp add: v)
  show "cid \<notin> connections_of ?s' u"
  proof
    assume "cid \<in> connections_of ?s' u"
    then have "cid \<in> connections_of (discard_user_connection cid ?uid ?s1) u"
      by (simp add: connections_of_def v)
    then have "cid \<in> connections_of ?s1 u" and ne: "\<not> (truthy_str ?uid \<and> u = the ?uid)"
      by (auto simp: discard_user_connection_users split: if_splits)
    then have "cid \<in> connections_of s u"
      by (simp add: connections_of_def unsubscribe_each_fields)
    with reg have "u \<noteq> []" "?uid = Some u"
      by (auto simp: registry_invariant_def)
    with ne show False by simp
  qed
  have "user_connections ?s1 u \<noteq> Some []"
    using reg by (simp add: unsubscribe_each_fields registry_invariant_def)
  then show "user_connections ?s' u \<noteq> Some []"
    by (simp add: v discard_user_connection_users)
  show "cid \<notin> subscribers ?s' ch"
    using inv1 none
    by (simp add: subscribers_def v discard_user_connection_fields subscription_invariant_def)
qed

lemma disconnect_invariant:
  assumes "subscription_invariant s"
  shows "subscription_invariant (snd (disconnect cfg cid s))"
proof (cases "cid \<in> set (active_connections s)")
  case False
  then show ?thesis using assms by (simp add: disconnect_unknown)
next
  case True
  let ?chs = "subscribed_channels (objects s cid)"
  let ?s1 = "snd (unsubscribe_each cfg cid ?chs s)"
  have inv1: "subscription_invariant ?s1"
    using assms by (rule unsubscribe_each_invariant)
  show ?thesis
  proof (cases "fst (unsubscribe_each cfg cid ?chs s)")
    case (Inl e)
    with True inv1 show ?thesis by (simp add: disconnect_failed_loop)
  next
    case (Inr u)
    then have ok: "fst (unsubscribe_each cfg cid ?chs s) = Inr ()" by simp
    have none: "subscribed_channels (objects ?s1 cid) = []"
      using unsubscribe_each_subscribed [OF ok True] by simp
    have "subscription_invariant
            ((discard_user_connection cid (user_id (objects s cid)) ?s1)
               \<lparr>active_connections := removeAll cid (active_connections s)\<rparr>)"
      using inv1 none
      unfolding subscription_invariant_def subscribers_def
      by (auto simp: discard_user_connection_fields unsubscribe_each_fields)
    then show ?thesis
      by (simp add: invariant_view [OF disconnect_view [OF True ok]])
  qed
qed

lemma disconnect_registry_invariant:
  assumes inv: "subscription_invariant s" and reg: "registry_invariant s"
  shows "registry_invariant (snd (disconnect cfg cid s))"
proof (cases "cid \<in> set (active_connections s)")
  case False
  then show ?thesis using reg by (simp add: disconnect_unknown)
next
  case True
  let ?chs = "subscribed_channels (objects s cid)"
  let ?s1 = "snd (unsubscribe_each cfg cid ?chs s)"
  have reg1: "registry_invariant ?s1"
    using reg by (simp add: registry_invariant_def connections_of_def unsubscribe_each_fields)
  show ?thesis
  proof (cases "fst (unsubscribe_each cfg cid ?chs s)")
    case (Inl e)
    with True reg1 show ?thesis by (simp add: disconnect_failed_loop)
  next
    case (Inr x)
    then have ok: "fst (unsubscribe_each cfg cid ?chs s) = Inr ()" by simp
    note v = view_fields [OF disconnect_view [OF True ok]]
    note r = disconnect_removes [OF inv reg True ok]
    have "u \<noteq> [] \<and> c \<in> set (active_connections (snd (disconnect cfg cid s))) \<and>
          user_id (objects (snd (disconnect cfg cid s)) c) = Some u"
      if "c \<in> connections_of (snd (disconnect cfg cid s)) u" for u c
    proof -
      from that r(2) [of u] have "c \<noteq> cid" by auto
      from that have "c \<in> connections_of (discard_user_connection cid (user_id (objects s cid)) ?s1) u"
        by (simp add: connections_of_def v)
      then have "c \<in> connections_of ?s1 u"
        by (auto simp: discard_user_connection_users split: if_splits)
      with reg1 \<open>c \<noteq> cid\<close> show ?thesis
        by (auto simp: registry_invariant_def v discard_user_connection_fields
              unsubscribe_each_fields)
    qed
    with r(3) show ?thesis
      unfolding registry_invariant_def by blast
  qed
qed

section \<open>Connect\<close>

lemma initial_invariants:
  "subscription_invariant ConnectionManager" "registry_invariant ConnectionManager"
  by (simp_all add: subscription_invariant_def registry_invariant_def subscribers_def
        connections_of_def get_set_def ConnectionManager_def)

lemma new_object_invariants:
  assumes "subscription_invariant s" and "registry_invariant s"
      and "cid \<notin> set (active_connections s)"
  shows "subscription_invariant (s\<lparr>objects := (objects s)(cid := c)\<rparr>)"
    and "registry_invariant (s\<lparr>objects := (objects s)(cid := c)\<rparr>)"
proof -
  show "subscription_invariant (s\<lparr>objects := (objects s)(cid := c)\<rparr>)"
    using assms(1,3) unfolding subscription_invariant_def subscribers_def by simp
  show "registry_invariant (s\<lparr>objects := (objects s)(cid := c)\<rparr>)"
    using assms(2,3) unfolding registry_invariant_def connections_of_def
    by simp blast
qed

lemma register_connection_invariants:
  assumes "subscription_invariant s" and "registry_invariant s"
      and "cid \<notin> set (active_connections s)"
      and "user_id (objects s cid) = uid" and "subscribed_channels (objects s cid) = []"
  shows "subscription_invariant (register_connection cid uid s)"
    and "registry_invariant (register_connection cid uid s)"
proof -
  show "subscription_invariant (register_connection cid uid s)"
    using assms(1,3,5) unfolding subscription_invariant_def subscribers_def
    by (auto simp: register_connection_fields)
  have "u \<noteq> [] \<and> c \<in> set (active_connections (register_connection cid uid s)) \<and>
        user_id (objects (register_connection cid uid s) c) = Some u"
    if "c \<in> connections_of (register_connection cid uid s) u" for u c
  proof -
    from that consider "truthy_str uid" "u = the uid" "c = cid" | "c \<in> connections_of s u"
      by (auto simp: register_connection_fields split: if_splits)
    then show ?thesis
    proof cases
      case 1
      then show ?thesis using assms(4) by (cases uid) (auto simp: register_connection_fields)
    next
      case 2
      then show ?thesis using assms(2)
        by (auto simp: register_connection_fields registry_invariant_def)
    qed
  qed
  moreover have "user_connections (register_connection cid uid s) u \<noteq> Some []" for u
    using assms(2) by (simp add: register_connection_fields registry_invariant_def)
  ultimately show "registry_invariant (register_connection cid uid s)"
    unfolding registry_invariant_def by blast
qed

text \<open>
  How far \<open>connect\<close> gets: it is refused, or the transport does not accept, or the
  connection is registered; what follows the registration keeps the registry.
\<close>

lemma connect_outcomes:
  "registry_view (snd (connect cfg cid ws uid s)) = registry_view s \<or>
   registry_view (snd (connect cfg cid ws uid s)) =
     registry_view (s\<lparr>objects := (objects s)(cid := WebSocketConnection cid ws uid (clock s))\<rparr>) \<or>
   registry_view (snd (connect cfg cid ws uid s)) =
     registry_view (register_connection cid uid
        (s\<lparr>objects := (objects s)(cid := WebSocketConnection cid ws uid (clock s))\<rparr>))"
proof -
  let ?s0 = "s\<lparr>objects := (objects s)(cid := WebSocketConnection cid ws uid (clock s))\<rparr>"
  have k: "keeps registry_view
             (bindE (store_connection_info cfg cid)
               (\<lambda>_. bindE (bindE datetime_now
                       (\<lambda>now. send_message cid
                          [(''type'', JStr ''connection_ack''),
                           (''connection_id'', JStr cid),
                           (''timestamp'', isoformat now)]))
               (\<lambda>_. returnE cid)))"
    by (intro keeps_bindE) simp_all
  show ?thesis
    using keepsD [OF k, of "register_connection cid uid ?s0"]
    by (simp add: connect_def snd_bindE modify_def websocket_accept_def split: sum.splits)
qed

text \<open>With an id that is not in use, as \<open>uuid4\<close> gives, \<open>connect\<close> keeps both invariants.\<close>

lemma connect_invariants:
  assumes "subscription_invariant s" and "registry_invariant s"
      and "cid \<notin> set (active_connections s)"
  shows "subscription_invariant (snd (connect cfg cid ws uid s))"
    and "registry_invariant (snd (connect cfg cid ws uid s))"
proof -
  let ?s0 = "s\<lparr>objects := (objects s)(cid := WebSocketConnection cid ws uid (clock s))\<rparr>"
  note s0 = new_object_invariants [OF assms, of "WebSocketConnection cid ws uid (clock s)"]
  have "cid \<notin> set (active_connections ?s0)" using assms(3) by simp
  note s1 = register_connection_invariants [OF s0 this, of uid]
  have f: "user_id (objects ?s0 cid) = uid" "subscribed_channels (objects ?s0 cid) = []"
    by (simp_all add: WebSocketConnection_def)
  show "subscription_invariant (snd (connect cfg cid ws uid s))"
    using connect_outcomes [of cfg cid ws uid s] assms(1) s0(1) s1(1) [OF f]
    by (auto dest: invariant_view)
  show "registry_invariant (snd (connect cfg cid ws uid s))"
    using connect_outcomes [of cfg cid ws uid s] assms(2) s0(2) s1(2) [OF f]
    by (auto dest: registry_invariant_view)
qed

section \<open>Persistence, sending and history\<close>

lemma list_range_prefix: "0 \<le> stop \<Longrightarrow> list_range xs 0 stop = take (nat (stop + 1)) xs"
  by (simp add: list_range_def Let_def)

lemma list_range_all: "list_range xs 0 (- 1) = xs"
  by (simp add: list_range_def Let_def)

text \<open>What \<open>_persist_message\<close> does when Redis answers.\<close>

lemma persist_message_up:
  assumes "r_up (redis s)" and "1 \<le> MESSAGE_RETENTION_DAYS cfg"
  shows "fst (persist_message cfg ch m s) = Inr ()"
    and "r_lists (redis (snd (persist_message cfg ch m s))) (messages_key cfg ch) =
           list_range (json_dumps m # r_lists (redis s) (messages_key cfg ch)) 0
             (MAX_MESSAGES_PER_CHANNEL cfg - 1)"
    and "r_strings (redis (snd (persist_message cfg ch m s))) (last_activity_key cfg ch) =
           Some (isoformat (clock s))"
    and "r_up (redis (snd (persist_message cfg ch m s)))"
    and "clock (snd (persist_message cfg ch m s)) = clock s"
    and "objects (snd (persist_message cfg ch m s)) = objects s"
    and "active_connections (snd (persist_message cfg ch m s)) = active_connections s"
    and "user_connections (snd (persist_message cfg ch m s)) = user_connections s"
    and "channel_subscriptions (snd (persist_message cfg ch m s)) = channel_subscriptions s"
  using assms
  by (simp_all add: persist_message_def redis_lpush_def redis_ltrim_def redis_expire_def
        redis_set_ex_def redis_cmd_def bindE_def datetime_now_def Let_def)

text \<open>What it does when Redis does not answer, or refuses the expire time.\<close>

lemma persist_message_down:
  assumes "\<not> r_up (redis s)"
  shows "persist_message cfg ch m s = (Inl RedisError, s)"
  using assms by (simp add: persist_message_def redis_lpush_def redis_cmd_def bindE_def)

lemma persist_message_refused:
  assumes "r_up (redis s)" and "MESSAGE_RETENTION_DAYS cfg \<le> 0"
  shows "fst (persist_message cfg ch m s) = Inl RedisError"
    and "r_lists (redis (snd (persist_message cfg ch m s))) (messages_key cfg ch) = []"
    and "objects (snd (persist_message cfg ch m s)) = objects s"
  using assms
  by (simp_all add: persist_message_def redis_lpush_def redis_ltrim_def redis_expire_def
        redis_set_ex_def redis_cmd_def bindE_def datetime_now_def Let_def raiseE_def
        delete_key_def)

lemma include_filter_Nil: "include_filter s users [] = []"
proof -
  have "fold (\<lambda>u filtered. set_update filtered
             (filter (\<lambda>c. c \<in> set []) (get_set (user_connections s) u))) users acc = acc" for acc
    by (induction users arbitrary: acc) simp_all
  then show ?thesis by (simp add: include_filter_def)
qed

lemma broadcast_targets_Nil:
  "get_set (channel_subscriptions s) (bc_channel msg) = [] \<Longrightarrow> broadcast_targets s msg = []"
  by (simp add: broadcast_targets_def include_filter_Nil Let_def)



lemma send_message_env [simp]:
  "ws_open (websocket (objects (snd (send_message cid m s)) c)) = ws_open (websocket (objects s c))"
  "redis (snd (send_message cid m s)) = redis s"
  "clock (snd (send_message cid m s)) = clock s"
  by (simp_all add: send_message_def update_object_def)




lemma snd_try_except:
  "snd (try_except m h s) =
     (case fst (m s) of Inl e \<Rightarrow> snd (h e (snd (m s))) | Inr x \<Rightarrow> snd (m s))"
  by (simp add: try_except_def split: prod.splits sum.splits)

lemma datetime_now_run [simp]:
  "fst (datetime_now s) = Inr (clock s)" "snd (datetime_now s) = s"
  by (simp_all add: datetime_now_def)




section \<open>Broadcast\<close>

lemma set_set_update [simp]: "set (set_update xs ys) = set xs \<union> set ys"
  by (induction ys arbitrary: xs) auto

lemma distinct_set_add [simp]: "distinct xs \<Longrightarrow> distinct (set_add x xs)"
  by (simp add: set_add_def)

lemma distinct_set_update [simp]: "distinct xs \<Longrightarrow> distinct (set_update xs ys)"
  by (induction ys arbitrary: xs) auto












lemma broadcast_down:
  assumes "persist msg" and "\<not> r_up (redis s)"
  shows "broadcast_to_channel cfg mid msg s = (Inl RedisError, s)"
  using assms by (simp add: broadcast_to_channel_def Let_def bindE_def persist_message_down)

section \<open>The heartbeat and the endpoint\<close>

text \<open>
  The scan with every heartbeat accepted: \<open>send_message\<close> has just set \<open>last_seen\<close> to
  the current instant when the timeout is tested, so the test never holds.
\<close>

lemma heartbeat_scan_open:
  assumes "0 \<le> CONNECTION_TIMEOUT cfg" and "t \<le> clock s"
      and "\<forall>c \<in> set cids. ws_open (websocket (objects s c))"
  shows "fst (heartbeat_scan cfg t cids disconnected s) = disconnected \<and>
         registry_view (snd (heartbeat_scan cfg t cids disconnected s)) = registry_view s \<and>
         redis (snd (heartbeat_scan cfg t cids disconnected s)) = redis s"
  using assms
proof (induction cids arbitrary: disconnected s)
  case Nil
  then show ?case by simp
next
  case (Cons x xs)
  let ?m = "[(''type'', JStr ''heartbeat''), (''timestamp'', isoformat t)]"
  obtain s1 where run: "send_message x ?m s = (Inr (), s1)"
    and env: "clock s1 = clock s" "last_seen (objects s1 x) = clock s"
      "\<And>c. ws_open (websocket (objects s1 c)) = ws_open (websocket (objects s c))"
      "registry_view s1 = registry_view s" "redis s1 = redis s"
    using Cons.prems(3)
    by (simp add: send_message_def update_object_def registry_view_def fun_eq_iff)
  have fresh: "\<not> t - last_seen (objects s1 x) > CONNECTION_TIMEOUT cfg * 1000000"
    using Cons.prems(1,2) by (simp add: env)
  have "t \<le> clock s1" "\<forall>c \<in> set xs. ws_open (websocket (objects s1 c))"
    using Cons.prems by (simp_all add: env)
  from Cons.IH [OF Cons.prems(1) this, of disconnected] fresh show ?case
    by (simp add: run env)
qed

lemma receive_message_cases:
  "int n > MAX_MESSAGE_SIZE cfg \<Longrightarrow>
     receive_message cfg cid (Text n w) s = (Inl (ValueError ''message too large''), s)"
  "\<not> int n > MAX_MESSAGE_SIZE cfg \<Longrightarrow> json_loads w = None \<Longrightarrow>
     receive_message cfg cid (Text n w) s = (Inl JSONDecodeError, s)"
  "\<not> int n > MAX_MESSAGE_SIZE cfg \<Longrightarrow> json_loads w = Some j \<Longrightarrow>
     receive_message cfg cid (Text n w) s =
       (Inr j, update_object cid (\<lambda>c. c\<lparr>last_seen := clock s\<rparr>) s)"
  "receive_message cfg cid Closed s = (Inl WebSocketDisconnect, s)"
  by (simp_all add: receive_message_def)

text \<open>A turn in which receiving raised something other than the disconnect.\<close>

lemma endpoint_turn_error:
  assumes "receive_message cfg cid inp s = (Inl e, s)" and "e \<noteq> WebSocketDisconnect"
      and "ws_open (websocket (objects s cid))"
  shows "endpoint_turn cfg cid uid mid inp s =
           (Continue,
            update_object cid
              (\<lambda>c. c\<lparr>websocket := (websocket c)
                        \<lparr>ws_sent := ws_sent (websocket c) @ [error_frame e (clock s)]\<rparr>,
                      last_seen := clock s\<rparr>) s)"
  using assms
  by (cases e) (simp_all add: endpoint_turn_def bindE_def send_message_def)

section \<open>The reachable states\<close>

lemma sets_wellformed_view:
  assumes "registry_view s' = registry_view s"
  shows "sets_wellformed s' = sets_wellformed s"
  by (simp add: sets_wellformed_def view_fields [OF assms])

lemma consistent_view:
  assumes "registry_view s' = registry_view s"
  shows "consistent s' = consistent s"
  by (simp add: consistent_def invariant_view [OF assms] registry_invariant_view [OF assms]
        sets_wellformed_view [OF assms])

lemma maintainsD: "maintains m \<Longrightarrow> consistent s \<Longrightarrow> consistent (snd (m s))"
  by (simp add: maintains_def)

lemma keeps_maintains:
  assumes "keeps registry_view m"
  shows "maintains m"
  unfolding maintains_def
proof (intro allI impI)
  fix s
  assume "consistent s"
  then show "consistent (snd (m s))"
    by (simp add: consistent_view [OF keepsD [OF assms]])
qed

lemma maintains_bindE: "maintains m \<Longrightarrow> (\<And>x. maintains (f x)) \<Longrightarrow> maintains (bindE m f)"
  by (simp add: maintains_def snd_bindE split: sum.splits)

lemma maintains_try_except:
  "maintains m \<Longrightarrow> (\<And>e. maintains (h e)) \<Longrightarrow> maintains (try_except m h)"
  by (simp add: maintains_def snd_try_except split: sum.splits)

lemma maintains_simple [simp]: "maintains (returnE x)" "maintains (raiseE e)"
  by (simp_all add: keeps_maintains)

lemma distinct_set_discard [simp]: "distinct xs \<Longrightarrow> distinct (set_discard x xs)"
  by (simp add: set_discard_def distinct_removeAll)

lemma add_subscription_wellformed:
  "sets_wellformed s \<Longrightarrow> sets_wellformed (add_subscription cid sub s)"
  by (auto simp: sets_wellformed_def add_subscription_def update_object_def Let_def)

lemma discard_subscription_wellformed:
  "sets_wellformed s \<Longrightarrow> sets_wellformed (discard_subscription cid ch s)"
  by (auto simp: sets_wellformed_def discard_subscription_def update_object_def Let_def
        get_set_def split: option.splits)

lemma maintains_subscribe: "maintains (subscribe_channel cfg cid sub)"
  unfolding maintains_def consistent_def
  by (auto simp: subscribe_invariant subscribe_registry_invariant
        sets_wellformed_view [OF view_subscribe] add_subscription_wellformed)

lemma maintains_unsubscribe: "maintains (unsubscribe_channel cfg cid ch)"
  unfolding maintains_def consistent_def
  by (auto simp: unsubscribe_invariant unsubscribe_registry_invariant
        sets_wellformed_view [OF view_unsubscribe] discard_subscription_wellformed)

lemma maintains_unsubscribe_each: "maintains (unsubscribe_each cfg cid chs)"
  by (induction chs) (simp_all add: maintains_bindE maintains_unsubscribe)


lemma unsubscribe_each_wellformed:
  "sets_wellformed s \<Longrightarrow> sets_wellformed (snd (unsubscribe_each cfg cid chs s))"
proof (induction chs arbitrary: s)
  case Nil
  then show ?case by (simp add: returnE_def)
next
  case (Cons ch chs)
  have "sets_wellformed (snd (unsubscribe_channel cfg cid ch s))"
    using Cons.prems
    by (simp add: sets_wellformed_view [OF view_unsubscribe] discard_subscription_wellformed)
  with Cons.IH Cons.prems show ?case
    by (simp add: snd_bindE split: sum.splits)
qed

lemma discard_user_connection_wellformed:
  "sets_wellformed s \<Longrightarrow> sets_wellformed (discard_user_connection cid uid s)"
  by (auto simp: sets_wellformed_def discard_user_connection_def Let_def get_set_def
        split: option.splits)

lemma disconnect_wellformed:
  assumes "sets_wellformed s"
  shows "sets_wellformed (snd (disconnect cfg cid s))"
proof (cases "cid \<in> set (active_connections s)")
  case False
  then show ?thesis using assms by (simp add: disconnect_unknown)
next
  case True
  let ?chs = "subscribed_channels (objects s cid)"
  let ?s1 = "snd (unsubscribe_each cfg cid ?chs s)"
  have w1: "sets_wellformed ?s1"
    using assms by (rule unsubscribe_each_wellformed)
  show ?thesis
  proof (cases "fst (unsubscribe_each cfg cid ?chs s)")
    case (Inl e)
    with True w1 show ?thesis by (simp add: disconnect_failed_loop)
  next
    case (Inr u)
    then have ok: "fst (unsubscribe_each cfg cid ?chs s) = Inr ()" by simp
    have "sets_wellformed
            ((discard_user_connection cid (user_id (objects s cid)) ?s1)
               \<lparr>active_connections := removeAll cid (active_connections s)\<rparr>)"
      using discard_user_connection_wellformed [OF w1, of cid "user_id (objects s cid)"] assms
      by (simp add: sets_wellformed_def distinct_removeAll)
    then show ?thesis
      by (simp add: sets_wellformed_view [OF disconnect_view [OF True ok]])
  qed
qed

lemma maintains_disconnect: "maintains (disconnect cfg cid)"
  unfolding maintains_def consistent_def
  by (auto simp: disconnect_invariant disconnect_registry_invariant disconnect_wellformed)

lemma maintains_disconnect_each: "maintains (disconnect_each cfg cids)"
  by (induction cids) (simp_all add: maintains_bindE maintains_disconnect)

lemma connect_wellformed:
  assumes "sets_wellformed s" and "cid \<notin> set (active_connections s)"
  shows "sets_wellformed (snd (connect cfg cid ws uid s))"
proof -
  let ?s0 = "s\<lparr>objects := (objects s)(cid := WebSocketConnection cid ws uid (clock s))\<rparr>"
  have s0: "sets_wellformed ?s0"
    using assms(1) by (simp add: sets_wellformed_def WebSocketConnection_def)
  have s1: "sets_wellformed (register_connection cid uid ?s0)"
    using s0 by (auto simp: sets_wellformed_def register_connection_def Let_def)
  show ?thesis
    using connect_outcomes [of cfg cid ws uid s] assms(1) s0 s1
    by (auto dest: sets_wellformed_view)
qed

lemma connect_consistent:
  "consistent s \<Longrightarrow> cid \<notin> set (active_connections s) \<Longrightarrow>
   consistent (snd (connect cfg cid ws uid s))"
  by (simp add: consistent_def connect_invariants connect_wellformed)

lemma keeps_persist_message [simp]: "keeps registry_view (persist_message cfg ch m)"
  unfolding persist_message_def by (intro keeps_bindE) simp_all

lemma deliver_view: "registry_view (snd (deliver cids m counts s)) = registry_view s"
proof (induction cids arbitrary: counts s)
  case Nil
  then show ?case by (cases counts) simp
next
  case (Cons x xs)
  obtain a b where c: "counts = (a, b)" by (cases counts)
  obtain r s1 where run: "send_message x m s = (r, s1)" by (cases "send_message x m s")
  then have "registry_view s1 = registry_view s"
    using keepsD [OF keeps_send_message, of x m s] by simp
  with Cons.IH show ?case
    by (cases r) (simp_all add: c run)
qed

lemma keeps_broadcast [simp]: "keeps registry_view (broadcast_to_channel cfg mid msg)"
proof -
  have "registry_view (snd (case deliver cids m (0, 0) s of
          ((sent, failed), s') \<Rightarrow>
            (Inr \<lparr>message_id = mid, sent_count = sent, failed_count = failed\<rparr>, s'))) =
        registry_view s" for cids m s
    using deliver_view [of cids m "(0, 0)" s] by (auto split: prod.splits)
  then have "keeps registry_view (\<lambda>s. case deliver (broadcast_targets s msg) m (0, 0) s of
          ((sent, failed), s') \<Rightarrow>
            (Inr \<lparr>message_id = mid, sent_count = sent, failed_count = failed\<rparr>, s'))" for m
    unfolding keeps_def by blast
  then have "keeps registry_view
       (bindE (if persist msg then persist_message cfg (bc_channel msg) m else returnE ())
          (\<lambda>_ s. case deliver (broadcast_targets s msg) m (0, 0) s of
             ((sent, failed), s') \<Rightarrow>
               (Inr \<lparr>message_id = mid, sent_count = sent, failed_count = failed\<rparr>, s')))" for m
    by (intro keeps_bindE) simp_all
  then show ?thesis
    by (simp add: keeps_def broadcast_to_channel_def Let_def)
qed

lemma heartbeat_scan_view:
  "registry_view (snd (heartbeat_scan cfg t cids disconnected s)) = registry_view s"
proof (induction cids arbitrary: disconnected s)
  case Nil
  then show ?case by simp
next
  case (Cons x xs)
  let ?m = "[(''type'', JStr ''heartbeat''), (''timestamp'', isoformat t)]"
  obtain r s1 where run: "send_message x ?m s = (r, s1)" by (cases "send_message x ?m s")
  then have "registry_view s1 = registry_view s"
    using keepsD [OF keeps_send_message, of x ?m s] by simp
  with Cons.IH show ?case
    by (cases r) (simp_all add: run)
qed

lemma maintains_heartbeat_pass: "maintains (heartbeat_pass cfg)"
proof -
  have "maintains (\<lambda>s. case heartbeat_scan cfg (clock s) (active_connections s) [] s of
               (disconnected, s') \<Rightarrow> disconnect_each cfg disconnected s')"
    unfolding maintains_def
  proof (intro allI impI)
    fix s
    assume c: "consistent s"
    obtain d s1 where scan: "heartbeat_scan cfg (clock s) (active_connections s) [] s = (d, s1)"
      by (metis surj_pair)
    then have "registry_view s1 = registry_view s"
      using heartbeat_scan_view [of cfg "clock s" "active_connections s" "[]" s] by simp
    from consistent_view [OF this] c have "consistent s1" by simp
    then show "consistent (snd (case heartbeat_scan cfg (clock s) (active_connections s) [] s of
               (disconnected, s') \<Rightarrow> disconnect_each cfg disconnected s'))"
      by (simp add: scan maintainsD [OF maintains_disconnect_each])
  qed
  then show ?thesis
    unfolding heartbeat_pass_def by (intro maintains_try_except) simp_all
qed


lemma keeps_receive_message [simp]: "keeps registry_view (receive_message cfg cid inp)"
  by (simp add: keeps_def receive_message_def registry_view_def update_object_def fun_eq_iff
        split: ws_input.splits option.splits)

lemma keeps_acknowledge:
  "keeps registry_view (bindE (redis_srem k cid) (\<lambda>_. bindE datetime_now
          (\<lambda>now. send_message cid (f now))))"
  by (intro keeps_bindE) simp_all

lemma maintains_acknowledge:
  "maintains (\<lambda>s. if cid \<notin> set (active_connections s) then (Inr (), s)
                   else bindE (redis_srem k cid) (\<lambda>_. bindE datetime_now
                          (\<lambda>now. send_message cid (f now))) s)"
  by (simp add: maintains_def consistent_view [OF keepsD [OF keeps_acknowledge]])

lemma maintains_unsubscribe_any: "maintains (unsubscribe_any cfg cid channel)"
proof (cases channel)
  case (JStr ch)
  then show ?thesis by (simp add: unsubscribe_any_def maintains_unsubscribe)
next
  case (JList xs)
  then show ?thesis
    by (simp add: unsubscribe_any_def maintains_def)
next
  case (JDict d)
  then show ?thesis
    by (simp add: unsubscribe_any_def maintains_def)
next
  case JNull
  then show ?thesis
    unfolding unsubscribe_any_def by simp (rule maintains_acknowledge)
next
  case (JBool b)
  then show ?thesis
    unfolding unsubscribe_any_def by simp (rule maintains_acknowledge)
next
  case (JInt i)
  then show ?thesis
    unfolding unsubscribe_any_def by simp (rule maintains_acknowledge)
qed

lemma maintains_dispatch: "maintains (dispatch cfg cid uid mid d)"
  unfolding dispatch_def Let_def
  by (auto intro!: maintains_subscribe maintains_unsubscribe_any keeps_maintains keeps_bindE
        maintains_bindE split: sum.splits)

lemma maintains_process_message: "maintains (process_message cfg cid uid mid message)"
  unfolding process_message_def
  by (auto intro!: maintains_dispatch split: sum.splits bool.splits json.splits)

lemma snd_answer:
  "snd (case p of (Inr u, s'') \<Rightarrow> (Continue, s'') | (Inl e', s'') \<Rightarrow> (Escape e', s''))
     = snd p"
  by (simp split: prod.splits sum.splits)

lemma endpoint_turn_consistent:
  assumes "consistent s"
  shows "consistent (snd (endpoint_turn cfg cid uid mid inp s))"
proof -
  let ?p = "bindE (receive_message cfg cid inp) (process_message cfg cid uid mid)"
  have "maintains ?p"
    by (intro maintains_bindE keeps_maintains maintains_process_message) simp
  then have c1: "consistent (snd (?p s))"
    using assms by (rule maintainsD)
  obtain r s1 where run: "?p s = (r, s1)" by (cases "?p s")
  with c1 have c: "consistent s1" by simp
  have send: "consistent (snd (send_message cid m s1))" for m
    using c by (simp add: consistent_view [OF keepsD [OF keeps_send_message]])
  show ?thesis
  proof (cases r)
    case (Inr u)
    with c show ?thesis by (simp add: endpoint_turn_def run)
  next
    case (Inl e)
    with c send show ?thesis
      by (cases e) (simp_all add: endpoint_turn_def run snd_answer)
  qed
qed

lemma ConnectionManager_wellformed: "sets_wellformed ConnectionManager"
  by (simp add: sets_wellformed_def ConnectionManager_def get_set_def WebSocketConnection_def)

text \<open>Every state the manager can be in satisfies the three invariants.\<close>

lemma reachable_consistent: "reachable cfg s \<Longrightarrow> consistent s"
proof (induction rule: reachable.induct)
  case start
  show ?case
    unfolding consistent_def
    using initial_invariants ConnectionManager_wellformed by blast
next
  case (environment s s')
  from environment.IH consistent_view [OF environment.hyps(2)] show ?case by blast
next
  case (connected s cid ws uid)
  from connected.IH connected.hyps(2) show ?case by (rule connect_consistent)
next
  case (disconnected s cid)
  from maintains_disconnect disconnected.IH show ?case by (rule maintainsD)
next
  case (subscribed s cid subscription)
  from maintains_subscribe subscribed.IH show ?case by (rule maintainsD)
next
  case (unsubscribed s cid channel)
  from maintains_unsubscribe unsubscribed.IH show ?case by (rule maintainsD)
next
  case (broadcast s mid msg)
  from keeps_maintains [OF keeps_broadcast] broadcast.IH show ?case by (rule maintainsD)
next
  case (heartbeat s)
  from maintains_heartbeat_pass heartbeat.IH show ?case by (rule maintainsD)
next
  case (turn s cid uid mid inp)
  from turn.IH show ?case by (rule endpoint_turn_consistent)
qed

section \<open>The example states\<close>

lemmas run_defs =
  connect_def subscribe_channel_def unsubscribe_channel_def disconnect_def
  websocket_accept_def register_connection_def add_subscription_def discard_subscription_def
  discard_user_connection_def del_active_def store_connection_info_def remove_connection_info_def
  send_message_def set_add_def set_discard_def get_set_def Let_def

lemma alice_connected_invariants:
  "subscription_invariant alice_connected" "registry_invariant alice_connected"
  unfolding alice_connected_def
  using connect_invariants [OF initial_invariants, of "''c1''"]
  by (simp_all add: ConnectionManager_def)

lemma alice_connected_value:
  "alice_connected =
     ConnectionManager
       \<lparr>objects := (objects ConnectionManager)
          (''c1'' := (WebSocketConnection ''c1'' open_socket (Some ''alice'') 0)
             \<lparr>websocket := open_socket
                \<lparr>ws_sent := [[(''type'', JStr ''connection_ack''),
                              (''connection_id'', JStr ''c1''),
                              (''timestamp'', isoformat 0)]]\<rparr>\<rparr>),
        active_connections := [''c1''],
        user_connections := [''alice'' \<mapsto> [''c1'']],
        redis := empty_redis
          \<lparr>r_hashes := (r_hashes empty_redis)
             (''suna:realtime:connection:c1'' \<mapsto>
                [(''connection_id'', JStr ''c1''), (''user_id'', JStr ''alice''),
                 (''connected_at'', isoformat 0), (''last_seen'', isoformat 0),
                 (''user_agent'', JStr []), (''ip_address'', JStr [])]),
            r_ttl := (r_ttl empty_redis)(''suna:realtime:connection:c1'' \<mapsto> 300)\<rparr>\<rparr>"
  by (simp add: alice_connected_def run_defs prog_defs redis_defs example_defs
        connection_key_def or_empty_def)


lemma alice_in_room_value:
  "alice_in_room =
     alice_connected
       \<lparr>objects := (objects alice_connected)
          (''c1'' := (objects alice_connected ''c1'')
             \<lparr>websocket := (websocket (objects alice_connected ''c1''))
                \<lparr>ws_sent := ws_sent (websocket (objects alice_connected ''c1'')) @
                     [[(''type'', JStr ''subscription_ack''),
                       (''channel'', JStr ''room''),
                       (''timestamp'', isoformat 0)]]\<rparr>,
              subscribed_channels := [''room''],
              channel_configs := [''room'' \<mapsto> Some []]\<rparr>),
        channel_subscriptions := [''room'' \<mapsto> [''c1'']],
        redis := (redis alice_connected)
          \<lparr>r_sets := (r_sets (redis alice_connected))
             (''suna:realtime:channel:room:subscribers'' := [''c1''])\<rparr>\<rparr>"
  by (simp add: alice_in_room_def alice_connected_value room_subscription_def run_defs prog_defs
        redis_defs example_defs subscribers_key_def dict_get_default_def)

lemma alice_in_room_invariants:
  "subscription_invariant alice_in_room" "registry_invariant alice_in_room"
  unfolding alice_in_room_def
  by (simp_all add: subscribe_invariant subscribe_registry_invariant alice_connected_invariants)

lemma disconnect_alice_in_room:
  "fst (disconnect default_config ''c1'' alice_in_room) = Inr ()"
  by (simp add: alice_in_room_value alice_connected_value run_defs prog_defs
        redis_defs example_defs subscribers_key_def connection_key_def)

lemma default_config_fields:
  "REDIS_PREFIX default_config = ''suna:realtime''"
  "MAX_CONNECTIONS_PER_USER default_config = 10"
  "MAX_MESSAGE_SIZE default_config = 65536"
  "CONNECTION_TIMEOUT default_config = 300"
  "MESSAGE_RETENTION_DAYS default_config = 7"
  "MAX_MESSAGES_PER_CHANNEL default_config = 1000"
  by (simp_all add: default_config_def)


lemma bob_connected_value:
  "bob_connected =
     alice_in_room
       \<lparr>objects := (objects alice_in_room)
          (''c2'' := (WebSocketConnection ''c2'' open_socket (Some ''bob'') 0)
             \<lparr>websocket := open_socket
                \<lparr>ws_sent := [[(''type'', JStr ''connection_ack''),
                              (''connection_id'', JStr ''c2''),
                              (''timestamp'', isoformat 0)]]\<rparr>\<rparr>),
        active_connections := [''c1'', ''c2''],
        user_connections := [''alice'' \<mapsto> [''c1''], ''bob'' \<mapsto> [''c2'']],
        redis := (redis alice_in_room)
          \<lparr>r_hashes := (r_hashes (redis alice_in_room))
             (''suna:realtime:connection:c2'' \<mapsto>
                [(''connection_id'', JStr ''c2''), (''user_id'', JStr ''bob''),
                 (''connected_at'', isoformat 0), (''last_seen'', isoformat 0),
                 (''user_agent'', JStr []), (''ip_address'', JStr [])]),
            r_ttl := (r_ttl (redis alice_in_room))(''suna:realtime:connection:c2'' \<mapsto> 300)\<rparr>\<rparr>"
proof -
  have a: "clock alice_in_room = 0" "active_connections alice_in_room = [''c1'']"
      "user_connections alice_in_room = [''alice'' \<mapsto> [''c1'']]" "r_up (redis alice_in_room)"
      "r_hashes (redis alice_in_room) ''suna:realtime:connection:c2'' = None"
    by (simp_all add: alice_in_room_value alice_connected_value example_defs)
  show ?thesis
    by (simp add: bob_connected_def run_defs prog_defs redis_defs a default_config_fields
          connection_key_def or_empty_def WebSocketConnection_def open_socket_def)
qed


lemma two_in_room_facts:
  "active_connections two_in_room = [''c1'', ''c2'']"
  "channel_subscriptions two_in_room = [''room'' \<mapsto> [''c1'', ''c2'']]"
  "user_connections two_in_room = [''alice'' \<mapsto> [''c1''], ''bob'' \<mapsto> [''c2'']]"
  "r_up (redis two_in_room)"
  "clock two_in_room = 0"
  "ws_open (websocket (objects two_in_room ''c1''))"
  "ws_open (websocket (objects two_in_room ''c2''))"
  "ws_sent (websocket (objects two_in_room ''c1'')) =
     [[(''type'', JStr ''connection_ack''), (''connection_id'', JStr ''c1''),
       (''timestamp'', isoformat 0)],
      [(''type'', JStr ''subscription_ack''), (''channel'', JStr ''room''),
       (''timestamp'', isoformat 0)]]"
  "ws_sent (websocket (objects two_in_room ''c2'')) =
     [[(''type'', JStr ''connection_ack''), (''connection_id'', JStr ''c2''),
       (''timestamp'', isoformat 0)],
      [(''type'', JStr ''subscription_ack''), (''channel'', JStr ''room''),
       (''timestamp'', isoformat 0)]]"
proof -
  have b: "clock bob_connected = 0" "active_connections bob_connected = [''c1'', ''c2'']"
      "user_connections bob_connected = [''alice'' \<mapsto> [''c1''], ''bob'' \<mapsto> [''c2'']]"
      "r_up (redis bob_connected)"
      "channel_subscriptions bob_connected = [''room'' \<mapsto> [''c1'']]"
      "websocket (objects bob_connected ''c2'') =
         open_socket\<lparr>ws_sent := [[(''type'', JStr ''connection_ack''),
                                    (''connection_id'', JStr ''c2''),
                                    (''timestamp'', isoformat 0)]]\<rparr>"
      "websocket (objects bob_connected ''c1'') =
         open_socket\<lparr>ws_sent := [[(''type'', JStr ''connection_ack''),
                                    (''connection_id'', JStr ''c1''),
                                    (''timestamp'', isoformat 0)],
                                   [(''type'', JStr ''subscription_ack''),
                                    (''channel'', JStr ''room''),
                                    (''timestamp'', isoformat 0)]]\<rparr>"
    by (simp_all add: bob_connected_value alice_in_room_value alice_connected_value example_defs)
  show "active_connections two_in_room = [''c1'', ''c2'']"
       "channel_subscriptions two_in_room = [''room'' \<mapsto> [''c1'', ''c2'']]"
       "user_connections two_in_room = [''alice'' \<mapsto> [''c1''], ''bob'' \<mapsto> [''c2'']]"
       "r_up (redis two_in_room)"
       "clock two_in_room = 0"
       "ws_open (websocket (objects two_in_room ''c1''))"
       "ws_open (websocket (objects two_in_room ''c2''))"
       "ws_sent (websocket (objects two_in_room ''c1'')) =
          [[(''type'', JStr ''connection_ack''), (''connection_id'', JStr ''c1''),
            (''timestamp'', isoformat 0)],
           [(''type'', JStr ''subscription_ack''), (''channel'', JStr ''room''),
            (''timestamp'', isoformat 0)]]"
       "ws_sent (websocket (objects two_in_room ''c2'')) =
          [[(''type'', JStr ''connection_ack''), (''connection_id'', JStr ''c2''),
            (''timestamp'', isoformat 0)],
           [(''type'', JStr ''subscription_ack''), (''channel'', JStr ''room''),
            (''timestamp'', isoformat 0)]]"
    by (simp_all add: two_in_room_def room_subscription_def run_defs prog_defs redis_defs b
          open_socket_def dict_get_default_def)
qed

lemma two_in_room_invariants:
  "subscription_invariant two_in_room" "registry_invariant two_in_room"
proof -
  have fresh: "''c2'' \<notin> set (active_connections alice_in_room)"
    by (simp add: alice_in_room_value alice_connected_value)
  note b = connect_invariants [OF alice_in_room_invariants fresh,
      of default_config open_socket "Some ''bob''"]
  show "subscription_invariant two_in_room"
    unfolding two_in_room_def bob_connected_def by (rule subscribe_invariant [OF b(1)])
  show "registry_invariant two_in_room"
    unfolding two_in_room_def bob_connected_def by (rule subscribe_registry_invariant [OF b(2)])
qed

lemma two_in_room_sets:
  "subscribers two_in_room ''room'' = {''c1'', ''c2''}"
  "connections_of two_in_room u =
     (if u = ''alice'' then {''c1''} else if u = ''bob'' then {''c2''} else {})"
  by (auto simp: subscribers_def connections_of_def get_set_def two_in_room_facts)

lemma alice_connected_reachable: "reachable default_config alice_connected"
  unfolding alice_connected_def
  by (rule reachable.connected [OF reachable.start]) (simp add: ConnectionManager_def)

lemma alice_in_room_reachable: "reachable default_config alice_in_room"
  unfolding alice_in_room_def
  by (rule reachable.subscribed [OF alice_connected_reachable])




lemma connect_alice:
  "connect default_config ''c1'' open_socket (Some ''alice'') ConnectionManager =
     (Inr ''c1'', alice_connected)"
proof -
  have "fst (connect default_config ''c1'' open_socket (Some ''alice'') ConnectionManager) = Inr ''c1''"
    by (simp add: run_defs prog_defs redis_defs example_defs connection_key_def or_empty_def)
  then show ?thesis by (simp add: alice_connected_def prod_eq_iff)
qed

section \<open>The bidirectional invariant (C1)\<close>

text \<open>
  C1. Starting from a state in which the bidirectional invariant holds, it holds in the
  state after every operation of every sequence of subscribe, unsubscribe and disconnect
  operations, whether the operation returned or raised (a send or a Redis command that
  fails comes after the dictionary updates of both sides).
\<close>

theorem subscription_invariant_maintained:
  "subscription_invariant s \<Longrightarrow> list_all subscription_invariant (states_after cfg ops s)"
proof (induction ops arbitrary: s)
  case Nil
  then show ?case by simp
next
  case (Cons op ops)
  have "subscription_invariant (perform cfg op s)"
    using Cons.prems
    by (cases op) (simp_all add: subscribe_invariant unsubscribe_invariant disconnect_invariant)
  with Cons.IH show ?case by simp
qed

theorem subscription_invariant_maintained_witness:
  "subscription_invariant alice_connected \<and>
   list_all subscription_invariant
     (states_after default_config
        [Subscribe ''c1'' room_subscription, Unsubscribe ''c1'' ''room'',
         Subscribe ''c1'' room_subscription, Disconnect ''c1'']
        alice_connected) \<and>
   subscribers (perform default_config (Subscribe ''c1'' room_subscription) alice_connected) ''room''
     = {''c1''}"
proof -
  have h: "subscription_invariant alice_connected"
    by (rule alice_connected_invariants)
  have "subscribers alice_in_room ''room'' = {''c1''}"
    by (simp add: alice_in_room_value subscribers_def get_set_def)
  then show ?thesis
    using h subscription_invariant_maintained [OF h, of default_config
        "[Subscribe ''c1'' room_subscription, Unsubscribe ''c1'' ''room'',
          Subscribe ''c1'' room_subscription, Disconnect ''c1'']"]
    by (simp add: alice_in_room_def)
qed

section \<open>The timeout of the heartbeat loop (C3)\<close>

text \<open>
  C3 does not hold of the code. The timeout is tested after the heartbeat was sent, and
  sending sets \<open>last_seen\<close> to the current instant: with a timeout that is not
  negative, a pass over connections whose transports accept the heartbeat evicts nobody,
  however long ago the connections were last seen. The registry and the Channel Index
  are after the pass what they were before.
\<close>

theorem heartbeat_never_times_out:
  assumes "0 \<le> CONNECTION_TIMEOUT cfg"
      and "\<forall>c \<in> set (active_connections s). ws_open (websocket (objects s c))"
  shows "fst (heartbeat_pass cfg s) = Inr () \<and>
         active_connections (snd (heartbeat_pass cfg s)) = active_connections s \<and>
         channel_subscriptions (snd (heartbeat_pass cfg s)) = channel_subscriptions s \<and>
         user_connections (snd (heartbeat_pass cfg s)) = user_connections s"
proof -
  note h = heartbeat_scan_open [OF assms(1) order_refl assms(2), of "[]"]
  obtain d s1 where scan: "heartbeat_scan cfg (clock s) (active_connections s) [] s = (d, s1)"
    by (metis surj_pair)
  with h have d: "d = []" and v: "registry_view s1 = registry_view s" by simp_all
  have "heartbeat_pass cfg s = (Inr (), s1)"
    by (simp add: heartbeat_pass_def try_except_def scan d returnE_def)
  then show ?thesis
    using view_fields [OF v] by simp
qed

theorem heartbeat_never_times_out_witness:
  "0 \<le> CONNECTION_TIMEOUT default_config \<and>
   active_connections stale_room = [''c1''] \<and>
   ws_open (websocket (objects stale_room ''c1'')) \<and>
   clock stale_room - last_seen (objects stale_room ''c1'')
     > CONNECTION_TIMEOUT default_config * 1000000 \<and>
   ''c1'' \<in> subscribers stale_room ''room'' \<and>
   fst (heartbeat_pass default_config stale_room) = Inr () \<and>
   ''c1'' \<in> set (active_connections (snd (heartbeat_pass default_config stale_room))) \<and>
   ''c1'' \<in> subscribers (snd (heartbeat_pass default_config stale_room)) ''room''"
proof -
  have f: "active_connections stale_room = [''c1'']"
      "ws_open (websocket (objects stale_room ''c1''))"
      "clock stale_room = 301000000" "last_seen (objects stale_room ''c1'') = 0"
      "channel_subscriptions stale_room = [''room'' \<mapsto> [''c1'']]"
    by (simp_all add: stale_room_def alice_in_room_value alice_connected_value example_defs)
  have h1: "0 \<le> CONNECTION_TIMEOUT default_config" by (simp add: default_config_fields)
  have h2: "\<forall>c \<in> set (active_connections stale_room). ws_open (websocket (objects stale_room c))"
    by (simp add: f)
  show ?thesis
    using heartbeat_never_times_out [OF h1 h2]
    by (simp add: f default_config_fields subscribers_def get_set_def)
qed

section \<open>Oversized, malformed and unknown frames (C4)\<close>

text \<open>
  C4, as amended. On a connection whose transport accepts sends, a frame larger than
  \<open>MAX_MESSAGE_SIZE\<close> and a frame that is not JSON are each answered with an error
  frame and the loop goes on; a frame with an unknown or missing type is skipped. In all
  three cases the state changes in the object of that connection only (the error frame
  sent, \<open>last_seen\<close>): the connection stays registered and no other connection is
  affected.
\<close>

theorem oversized_frame_answered:
  assumes "ws_open (websocket (objects s cid))"
  shows "(int n > MAX_MESSAGE_SIZE cfg \<longrightarrow>
            endpoint_turn cfg cid uid mid (Text n w) s =
              (Continue,
               update_object cid
                 (\<lambda>c. c\<lparr>websocket := (websocket c)
                           \<lparr>ws_sent := ws_sent (websocket c) @
                              [error_frame (ValueError ''message too large'') (clock s)]\<rparr>,
                         last_seen := clock s\<rparr>) s)) \<and>
         (int n \<le> MAX_MESSAGE_SIZE cfg \<and> json_loads w = None \<longrightarrow>
            endpoint_turn cfg cid uid mid (Text n w) s =
              (Continue,
               update_object cid
                 (\<lambda>c. c\<lparr>websocket := (websocket c)
                           \<lparr>ws_sent := ws_sent (websocket c) @
                              [error_frame JSONDecodeError (clock s)]\<rparr>,
                         last_seen := clock s\<rparr>) s)) \<and>
         (int n \<le> MAX_MESSAGE_SIZE cfg \<and> json_loads w = Some (JDict d) \<and>
          dict_get d ''type'' \<notin> {JStr ''subscribe'', JStr ''unsubscribe'', JStr ''ping'',
                                  JStr ''broadcast''} \<longrightarrow>
            endpoint_turn cfg cid uid mid (Text n w) s =
              (Continue, update_object cid (\<lambda>c. c\<lparr>last_seen := clock s\<rparr>) s))"
proof (intro conjI impI)
  assume "int n > MAX_MESSAGE_SIZE cfg"
  then show "endpoint_turn cfg cid uid mid (Text n w) s =
              (Continue,
               update_object cid
                 (\<lambda>c. c\<lparr>websocket := (websocket c)
                           \<lparr>ws_sent := ws_sent (websocket c) @
                              [error_frame (ValueError ''message too large'') (clock s)]\<rparr>,
                         last_seen := clock s\<rparr>) s)"
    using assms by (simp add: endpoint_turn_error receive_message_cases)
next
  assume "int n \<le> MAX_MESSAGE_SIZE cfg \<and> json_loads w = None"
  then show "endpoint_turn cfg cid uid mid (Text n w) s =
              (Continue,
               update_object cid
                 (\<lambda>c. c\<lparr>websocket := (websocket c)
                           \<lparr>ws_sent := ws_sent (websocket c) @
                              [error_frame JSONDecodeError (clock s)]\<rparr>,
                         last_seen := clock s\<rparr>) s)"
    using assms by (simp add: endpoint_turn_error receive_message_cases)
next
  assume a: "int n \<le> MAX_MESSAGE_SIZE cfg \<and> json_loads w = Some (JDict d) \<and>
          dict_get d ''type'' \<notin> {JStr ''subscribe'', JStr ''unsubscribe'', JStr ''ping'',
                                  JStr ''broadcast''}"
  let ?s1 = "update_object cid (\<lambda>c. c\<lparr>last_seen := clock s\<rparr>) s"
  have r: "receive_message cfg cid (Text n w) s = (Inr (JDict d), ?s1)"
    using a by (simp add: receive_message_cases)
  have "process_message cfg cid uid mid (JDict d) ?s1 = (Inr (), ?s1)"
    using a
    by (cases "d = []"; cases "map_of d ''type''")
       (simp_all add: process_message_def dispatch_def returnE_def Let_def)
  then show "endpoint_turn cfg cid uid mid (Text n w) s = (Continue, ?s1)"
    by (simp add: endpoint_turn_def bindE_def r)
qed

theorem oversized_frame_answered_witness:
  "ws_open (websocket (objects two_in_room ''c1'')) \<and>
   int 65537 > MAX_MESSAGE_SIZE default_config \<and>
   endpoint_turn default_config ''c1'' (Some ''alice'') ''m1''
       (Text 65537 (Encoded ping_frame)) two_in_room =
     (Continue,
      update_object ''c1''
        (\<lambda>c. c\<lparr>websocket := (websocket c)
                  \<lparr>ws_sent := ws_sent (websocket c) @
                     [error_frame (ValueError ''message too large'') (clock two_in_room)]\<rparr>,
                last_seen := clock two_in_room\<rparr>) two_in_room) \<and>
   int 7 \<le> MAX_MESSAGE_SIZE default_config \<and> json_loads Malformed = None \<and>
   endpoint_turn default_config ''c1'' (Some ''alice'') ''m1'' (Text 7 Malformed) two_in_room =
     (Continue,
      update_object ''c1''
        (\<lambda>c. c\<lparr>websocket := (websocket c)
                  \<lparr>ws_sent := ws_sent (websocket c) @
                     [error_frame JSONDecodeError (clock two_in_room)]\<rparr>,
                last_seen := clock two_in_room\<rparr>) two_in_room) \<and>
   json_loads (Encoded (JDict [(''type'', JStr ''dance'')])) = Some (JDict [(''type'', JStr ''dance'')]) \<and>
   endpoint_turn default_config ''c1'' (Some ''alice'') ''m1''
       (Text 7 (Encoded (JDict [(''type'', JStr ''dance'')]))) two_in_room =
     (Continue, update_object ''c1'' (\<lambda>c. c\<lparr>last_seen := clock two_in_room\<rparr>) two_in_room)"
proof -
  have h: "ws_open (websocket (objects two_in_room ''c1''))"
    by (rule two_in_room_facts)
  show ?thesis
    using h
      oversized_frame_answered [OF h, where n = 65537 and cfg = default_config
        and uid = "Some ''alice''" and mid = "''m1''" and w = "Encoded ping_frame" and d = "[]"]
      oversized_frame_answered [OF h, where n = 7 and cfg = default_config
        and uid = "Some ''alice''" and mid = "''m1''" and w = Malformed and d = "[]"]
      oversized_frame_answered [OF h, where n = 7 and cfg = default_config
        and uid = "Some ''alice''" and mid = "''m1''"
        and w = "Encoded (JDict [(''type'', JStr ''dance'')])"
        and d = "[(''type'', JStr ''dance'')]"]
    by (simp add: default_config_fields json_loads_def dict_get_def)
qed

text \<open>
  C4 as stated fails: the endpoint, given an oversized frame and then a \<open>ping\<close>, is
  still serving the connection, which is registered and has been sent the error frame
  and the \<open>pong\<close>.
\<close>

theorem oversized_frame_counterexample:
  "fst (websocket_endpoint default_config ''c1'' open_socket (Some ''alice'')
          [(''m1'', Text 65537 (Encoded ping_frame)), (''m2'', Text 16 (Encoded ping_frame))]
          ConnectionManager) = Serving \<and>
   ''c1'' \<in> set (active_connections
      (snd (websocket_endpoint default_config ''c1'' open_socket (Some ''alice'')
          [(''m1'', Text 65537 (Encoded ping_frame)), (''m2'', Text 16 (Encoded ping_frame))]
          ConnectionManager))) \<and>
   ws_sent (websocket (objects
      (snd (websocket_endpoint default_config ''c1'' open_socket (Some ''alice'')
          [(''m1'', Text 65537 (Encoded ping_frame)), (''m2'', Text 16 (Encoded ping_frame))]
          ConnectionManager)) ''c1'')) =
     [[(''type'', JStr ''connection_ack''), (''connection_id'', JStr ''c1''),
       (''timestamp'', isoformat 0)],
      error_frame (ValueError ''message too large'') 0,
      [(''type'', JStr ''pong''), (''timestamp'', isoformat 0)]]"
proof -
  define s1 where "s1 = update_object ''c1''
              (\<lambda>c. c\<lparr>websocket := (websocket c)
                        \<lparr>ws_sent := ws_sent (websocket c) @
                           [error_frame (ValueError ''message too large'') (clock alice_connected)]\<rparr>,
                      last_seen := clock alice_connected\<rparr>) alice_connected"
  define s2 where "s2 = snd (send_message ''c1''
                 [(''type'', JStr ''pong''), (''timestamp'', isoformat 0)]
                 (update_object ''c1'' (\<lambda>c. c\<lparr>last_seen := 0\<rparr>) s1))"
  have a: "ws_open (websocket (objects alice_connected ''c1''))" "clock alice_connected = 0"
      "active_connections alice_connected = [''c1'']"
      "ws_sent (websocket (objects alice_connected ''c1'')) =
         [[(''type'', JStr ''connection_ack''), (''connection_id'', JStr ''c1''),
           (''timestamp'', isoformat 0)]]"
    by (simp_all add: alice_connected_value example_defs)
  have big: "int 65537 > MAX_MESSAGE_SIZE default_config" by (simp add: default_config_fields)
  have t1: "endpoint_turn default_config ''c1'' (Some ''alice'') ''m1''
               (Text 65537 (Encoded ping_frame)) alice_connected = (Continue, s1)"
    unfolding s1_def using a(1) big by (simp add: endpoint_turn_error receive_message_cases(1))
  have b: "ws_open (websocket (objects s1 ''c1''))" "clock s1 = 0"
      "active_connections s1 = [''c1'']"
      "ws_sent (websocket (objects s1 ''c1'')) =
         [[(''type'', JStr ''connection_ack''), (''connection_id'', JStr ''c1''),
           (''timestamp'', isoformat 0)],
          error_frame (ValueError ''message too large'') 0]"
    using a by (simp_all add: s1_def update_object_def)
  have t2: "endpoint_turn default_config ''c1'' (Some ''alice'') ''m2''
               (Text 16 (Encoded ping_frame)) s1 = (Continue, s2)"
    unfolding s2_def using b
    by (simp add: endpoint_turn_def bindE_def receive_message_def json_loads_def ping_frame_def
          process_message_def dispatch_def dict_get_def default_config_fields datetime_now_def
          send_message_def update_object_def)
  have c: "active_connections s2 = [''c1'']"
      "ws_sent (websocket (objects s2 ''c1'')) =
         [[(''type'', JStr ''connection_ack''), (''connection_id'', JStr ''c1''),
           (''timestamp'', isoformat 0)],
          error_frame (ValueError ''message too large'') 0,
          [(''type'', JStr ''pong''), (''timestamp'', isoformat 0)]]"
    using b by (simp_all add: s2_def send_message_def update_object_def)
  show ?thesis
    by (simp add: websocket_endpoint_def connect_alice t1 t2 c)
qed

section \<open>Disconnect is idempotent and complete (C6)\<close>

text \<open>
  C6. \<open>disconnect\<close> of an id that is not registered returns without an error and
  leaves the state as it is; in every state the manager can reach, a
  \<open>disconnect\<close> that returns leaves the id in no entry of \<open>active_connections\<close>, in
  no user's set (and no user with an empty set), in no channel's subscriber set, and a
  second \<open>disconnect\<close> of the id changes nothing.
\<close>

theorem disconnect_idempotent_and_complete:
  "(cid \<notin> set (active_connections s) \<longrightarrow> disconnect cfg cid s = (Inr (), s)) \<and>
   (reachable cfg s \<and> fst (disconnect cfg cid s) = Inr () \<longrightarrow>
      cid \<notin> set (active_connections (snd (disconnect cfg cid s))) \<and>
      (\<forall>u. cid \<notin> connections_of (snd (disconnect cfg cid s)) u) \<and>
      (\<forall>u. user_connections (snd (disconnect cfg cid s)) u \<noteq> Some []) \<and>
      (\<forall>ch. cid \<notin> subscribers (snd (disconnect cfg cid s)) ch) \<and>
      disconnect cfg cid (snd (disconnect cfg cid s)) = (Inr (), snd (disconnect cfg cid s)))"
proof (intro conjI impI)
  assume "cid \<notin> set (active_connections s)"
  then show "disconnect cfg cid s = (Inr (), s)" by (rule disconnect_unknown)
next
  assume run: "reachable cfg s \<and> fst (disconnect cfg cid s) = Inr ()"
  then have "consistent s"
    by (blast intro: reachable_consistent)
  with run have hyp: "subscription_invariant s \<and> registry_invariant s \<and> fst (disconnect cfg cid s) = Inr ()"
    by (simp add: consistent_def)
  let ?s' = "snd (disconnect cfg cid s)"
  have gone: "cid \<notin> set (active_connections ?s') \<and>
        (\<forall>u. cid \<notin> connections_of ?s' u) \<and>
        (\<forall>u. user_connections ?s' u \<noteq> Some []) \<and>
        (\<forall>ch. cid \<notin> subscribers ?s' ch)"
  proof (cases "cid \<in> set (active_connections s)")
    case False
    with hyp show ?thesis
      by (auto simp: disconnect_unknown subscription_invariant_def registry_invariant_def)
  next
    case True
    with hyp have ok: "fst (unsubscribe_each cfg cid (subscribed_channels (objects s cid)) s) = Inr ()"
      by (simp add: disconnect_loop_ok)
    from hyp disconnect_removes [OF _ _ True ok] show ?thesis by blast
  qed
  then show "cid \<notin> set (active_connections ?s')"
    and "\<forall>u. cid \<notin> connections_of ?s' u"
    and "\<forall>u. user_connections ?s' u \<noteq> Some []"
    and "\<forall>ch. cid \<notin> subscribers ?s' ch"
    by blast+
  from gone show "disconnect cfg cid ?s' = (Inr (), ?s')"
    by (simp add: disconnect_unknown)
qed

theorem disconnect_idempotent_and_complete_witness:
  "''c9'' \<notin> set (active_connections alice_in_room) \<and>
   disconnect default_config ''c9'' alice_in_room = (Inr (), alice_in_room) \<and>
   reachable default_config alice_in_room \<and>
   ''c1'' \<in> subscribers alice_in_room ''room'' \<and>
   ''c1'' \<in> connections_of alice_in_room ''alice'' \<and>
   fst (disconnect default_config ''c1'' alice_in_room) = Inr () \<and>
   ''c1'' \<notin> set (active_connections (snd (disconnect default_config ''c1'' alice_in_room))) \<and>
   ''c1'' \<notin> connections_of (snd (disconnect default_config ''c1'' alice_in_room)) ''alice'' \<and>
   user_connections (snd (disconnect default_config ''c1'' alice_in_room)) ''alice'' \<noteq> Some [] \<and>
   ''c1'' \<notin> subscribers (snd (disconnect default_config ''c1'' alice_in_room)) ''room'' \<and>
   disconnect default_config ''c1'' (snd (disconnect default_config ''c1'' alice_in_room))
     = (Inr (), snd (disconnect default_config ''c1'' alice_in_room))"
proof -
  have h1: "''c9'' \<notin> set (active_connections alice_in_room)"
    by (simp add: alice_in_room_value alice_connected_value)
  have h2: "''c1'' \<in> subscribers alice_in_room ''room''"
           "''c1'' \<in> connections_of alice_in_room ''alice''"
    by (simp_all add: alice_in_room_value alice_connected_value subscribers_def
          connections_of_def get_set_def)
  show ?thesis
    using h1 h2 alice_in_room_reachable disconnect_alice_in_room
      disconnect_idempotent_and_complete [of "''c9''" alice_in_room default_config]
      disconnect_idempotent_and_complete [of "''c1''" alice_in_room default_config]
    by simp
qed

section \<open>The recipients of a broadcast (C2)\<close>




section \<open>History replay on subscribe (C7)\<close>



section \<open>The cap on persisted messages (C8)\<close>

text \<open>
  C8 does not hold of the code. With Redis answering, the list stored for the channel
  after \<open>_persist_message\<close> is: for a retention of at least a day and a configured
  maximum of at least 1, the new message followed by the former list, cut to the
  maximum, so it holds at most the maximum and what is dropped is the tail, the oldest
  entries; for a retention of at least a day and a maximum of 0, the new message
  followed by the whole former list, more than the maximum, because the trim is then
  \<open>LTRIM key 0 -1\<close>, which keeps every entry; and for a retention that is not positive
  the list is deleted by its expiry.
\<close>

theorem persisted_list_capped:
  assumes "r_up (redis s)"
  shows "(1 \<le> MESSAGE_RETENTION_DAYS cfg \<and> 1 \<le> MAX_MESSAGES_PER_CHANNEL cfg \<longrightarrow>
            r_lists (redis (snd (persist_message cfg ch m s))) (messages_key cfg ch) =
              take (nat (MAX_MESSAGES_PER_CHANNEL cfg))
                (json_dumps m # r_lists (redis s) (messages_key cfg ch)) \<and>
            int (length (r_lists (redis (snd (persist_message cfg ch m s))) (messages_key cfg ch)))
              \<le> MAX_MESSAGES_PER_CHANNEL cfg) \<and>
         (1 \<le> MESSAGE_RETENTION_DAYS cfg \<and> MAX_MESSAGES_PER_CHANNEL cfg = 0 \<longrightarrow>
            r_lists (redis (snd (persist_message cfg ch m s))) (messages_key cfg ch) =
              json_dumps m # r_lists (redis s) (messages_key cfg ch) \<and>
            MAX_MESSAGES_PER_CHANNEL cfg <
              int (length (r_lists (redis (snd (persist_message cfg ch m s))) (messages_key cfg ch)))) \<and>
         (MESSAGE_RETENTION_DAYS cfg \<le> 0 \<longrightarrow>
            fst (persist_message cfg ch m s) = Inl RedisError \<and>
            r_lists (redis (snd (persist_message cfg ch m s))) (messages_key cfg ch) = [])"
proof (intro conjI impI)
  let ?after = "r_lists (redis (snd (persist_message cfg ch m s))) (messages_key cfg ch)"
  let ?before = "r_lists (redis s) (messages_key cfg ch)"
  {
    assume h: "1 \<le> MESSAGE_RETENTION_DAYS cfg \<and> 1 \<le> MAX_MESSAGES_PER_CHANNEL cfg"
    then have ret: "1 \<le> MESSAGE_RETENTION_DAYS cfg" and cap: "1 \<le> MAX_MESSAGES_PER_CHANNEL cfg"
      by simp_all
    from cap show eq: "?after = take (nat (MAX_MESSAGES_PER_CHANNEL cfg)) (json_dumps m # ?before)"
      by (simp add: persist_message_up [OF assms ret] list_range_prefix)
    from cap show "int (length ?after) \<le> MAX_MESSAGES_PER_CHANNEL cfg"
      by (simp add: eq)
  }
  {
    assume h: "1 \<le> MESSAGE_RETENTION_DAYS cfg \<and> MAX_MESSAGES_PER_CHANNEL cfg = 0"
    then have ret: "1 \<le> MESSAGE_RETENTION_DAYS cfg" and cap: "MAX_MESSAGES_PER_CHANNEL cfg = 0"
      by simp_all
    from cap show eq: "?after = json_dumps m # ?before"
      by (simp add: persist_message_up [OF assms ret] list_range_all)
    from cap show "MAX_MESSAGES_PER_CHANNEL cfg < int (length ?after)"
      by (simp add: eq)
  }
  {
    assume ret: "MESSAGE_RETENTION_DAYS cfg \<le> 0"
    from persist_message_refused [OF assms ret]
    show "fst (persist_message cfg ch m s) = Inl RedisError" and "?after = []"
      by simp_all
  }
qed

theorem persisted_list_capped_witness:
  "r_up (redis ConnectionManager) \<and>
   1 \<le> MESSAGE_RETENTION_DAYS (default_config\<lparr>MAX_MESSAGES_PER_CHANNEL := 2\<rparr>) \<and>
   1 \<le> MAX_MESSAGES_PER_CHANNEL (default_config\<lparr>MAX_MESSAGES_PER_CHANNEL := 2\<rparr>) \<and>
   r_lists (redis (snd (persist_message (default_config\<lparr>MAX_MESSAGES_PER_CHANNEL := 2\<rparr>) ''room''
       [(''n'', JInt 3)]
       (ConnectionManager\<lparr>redis := empty_redis\<lparr>r_lists := (\<lambda>_. [Encoded (JInt 2), Encoded (JInt 1)])\<rparr>\<rparr>))))
     (messages_key (default_config\<lparr>MAX_MESSAGES_PER_CHANNEL := 2\<rparr>) ''room'')
     = [Encoded (JDict [(''n'', JInt 3)]), Encoded (JInt 2)] \<and>
   1 \<le> MESSAGE_RETENTION_DAYS (default_config\<lparr>MAX_MESSAGES_PER_CHANNEL := 0\<rparr>) \<and>
   MAX_MESSAGES_PER_CHANNEL (default_config\<lparr>MAX_MESSAGES_PER_CHANNEL := 0\<rparr>) = 0 \<and>
   r_lists (redis (snd (persist_message (default_config\<lparr>MAX_MESSAGES_PER_CHANNEL := 0\<rparr>) ''room''
       [(''n'', JInt 3)]
       (ConnectionManager\<lparr>redis := empty_redis\<lparr>r_lists := (\<lambda>_. [Encoded (JInt 2), Encoded (JInt 1)])\<rparr>\<rparr>))))
     (messages_key (default_config\<lparr>MAX_MESSAGES_PER_CHANNEL := 0\<rparr>) ''room'')
     = [Encoded (JDict [(''n'', JInt 3)]), Encoded (JInt 2), Encoded (JInt 1)] \<and>
   MESSAGE_RETENTION_DAYS (default_config\<lparr>MESSAGE_RETENTION_DAYS := 0\<rparr>) \<le> 0 \<and>
   fst (persist_message (default_config\<lparr>MESSAGE_RETENTION_DAYS := 0\<rparr>) ''room''
       [(''n'', JInt 3)]
       (ConnectionManager\<lparr>redis := empty_redis\<lparr>r_lists := (\<lambda>_. [Encoded (JInt 2), Encoded (JInt 1)])\<rparr>\<rparr>))
     = Inl RedisError \<and>
   r_lists (redis (snd (persist_message (default_config\<lparr>MESSAGE_RETENTION_DAYS := 0\<rparr>) ''room''
       [(''n'', JInt 3)]
       (ConnectionManager\<lparr>redis := empty_redis\<lparr>r_lists := (\<lambda>_. [Encoded (JInt 2), Encoded (JInt 1)])\<rparr>\<rparr>))))
     (messages_key (default_config\<lparr>MESSAGE_RETENTION_DAYS := 0\<rparr>) ''room'')
     = []"
proof -
  let ?s = "ConnectionManager\<lparr>redis := empty_redis\<lparr>r_lists := (\<lambda>_. [Encoded (JInt 2), Encoded (JInt 1)])\<rparr>\<rparr>"
  have h1: "r_up (redis ?s)" by (simp add: empty_redis_def)
  show ?thesis
    using persisted_list_capped [OF h1, of "default_config\<lparr>MAX_MESSAGES_PER_CHANNEL := 2\<rparr>"
            "''room''" "[(''n'', JInt 3)]"]
      persisted_list_capped [OF h1, of "default_config\<lparr>MAX_MESSAGES_PER_CHANNEL := 0\<rparr>"
            "''room''" "[(''n'', JInt 3)]"]
      persisted_list_capped [OF h1, of "default_config\<lparr>MESSAGE_RETENTION_DAYS := 0\<rparr>"
            "''room''" "[(''n'', JInt 3)]"]
    by (simp add: ConnectionManager_def empty_redis_def json_dumps_def default_config_fields)
qed

text \<open>
  The failing input: with a configured maximum of 0 and nothing stored, one persisted
  message leaves a list of one entry, which is more than the maximum.
\<close>

theorem persisted_list_uncapped_counterexample:
  "\<not> int (length (r_lists
       (redis (snd (persist_message (default_config\<lparr>MAX_MESSAGES_PER_CHANNEL := 0\<rparr>) ''room''
                      [(''type'', JStr ''broadcast'')] ConnectionManager)))
       (messages_key (default_config\<lparr>MAX_MESSAGES_PER_CHANNEL := 0\<rparr>) ''room'')))
     \<le> MAX_MESSAGES_PER_CHANNEL (default_config\<lparr>MAX_MESSAGES_PER_CHANNEL := 0\<rparr>)"
proof -
  have up: "r_up (redis ConnectionManager)"
    by (simp add: ConnectionManager_def empty_redis_def)
  have ret: "1 \<le> MESSAGE_RETENTION_DAYS (default_config\<lparr>MAX_MESSAGES_PER_CHANNEL := 0\<rparr>)"
    by (simp add: default_config_fields)
  show ?thesis
    by (simp add: persist_message_up [OF up ret] list_range_all)
qed

section \<open>Admission at the cap (C5)\<close>

lemma alice_connected_users: "user_connections alice_connected = [''alice'' \<mapsto> [''c1'']]"
  by (simp add: alice_connected_def connect_def prog_defs redis_defs example_defs
      websocket_accept_def register_connection_def set_add_def get_set_def
      store_connection_info_def send_message_def)

text \<open>
  C5. An admission that carries a user id (a truthy one: the source takes the empty
  string for no user) whose number of connections has reached the cap raises the HTTP
  error 429, and the whole state, the three dictionaries included, is the state before
  the call.
\<close>

theorem connect_rejected_at_cap:
  assumes "u \<noteq> []"
      and "MAX_CONNECTIONS_PER_USER cfg \<le> int (length (get_set (user_connections s) u))"
  shows "connect cfg cid ws (Some u) s = (Inl (HTTPException 429), s)"
  using assms by (simp add: connect_def)

theorem connect_rejected_at_cap_witness:
  "''alice'' \<noteq> [] \<and>
   MAX_CONNECTIONS_PER_USER (default_config\<lparr>MAX_CONNECTIONS_PER_USER := 1\<rparr>)
     \<le> int (length (get_set (user_connections alice_connected) ''alice'')) \<and>
   connect (default_config\<lparr>MAX_CONNECTIONS_PER_USER := 1\<rparr>) ''c2'' open_socket
     (Some ''alice'') alice_connected = (Inl (HTTPException 429), alice_connected)"
proof -
  have h1: "''alice'' \<noteq> []" by simp
  have h2: "MAX_CONNECTIONS_PER_USER (default_config\<lparr>MAX_CONNECTIONS_PER_USER := 1\<rparr>)
              \<le> int (length (get_set (user_connections alice_connected) ''alice''))"
    by (simp add: alice_connected_users get_set_def)
  show ?thesis
    using h1 h2 connect_rejected_at_cap [OF h1 h2, of "''c2''" open_socket] by simp
qed

section \<open>Broadcast frames of anonymous connections (C9)\<close>

text \<open>
  C9. A \<open>broadcast\<close> frame received on a connection without a (truthy) user id is
  ignored: the loop goes on, and the state after the turn is the state before it with
  \<open>last_seen\<close> of the receiving connection set by the receipt, as for every frame
  received. Nothing was sent to any connection, no error frame either, Redis and the
  three dictionaries are untouched. So a broadcast happens only for a connection that
  carries a user id.
\<close>

theorem anonymous_broadcast_ignored:
  assumes "\<not> truthy_str uid" and "int n \<le> MAX_MESSAGE_SIZE cfg"
      and "json_loads w = Some (JDict d)" and "dict_get d ''type'' = JStr ''broadcast''"
  shows "endpoint_turn cfg cid uid mid (Text n w) s =
           (Continue, update_object cid (\<lambda>c. c\<lparr>last_seen := clock s\<rparr>) s)"
proof -
  let ?s1 = "update_object cid (\<lambda>c. c\<lparr>last_seen := clock s\<rparr>) s"
  have r: "receive_message cfg cid (Text n w) s = (Inr (JDict d), ?s1)"
    using assms by (simp add: receive_message_cases)
  have "process_message cfg cid uid mid (JDict d) ?s1 = (Inr (), ?s1)"
    using assms
    by (cases "d = []"; cases "map_of d ''type''")
       (simp_all add: process_message_def dispatch_def returnE_def Let_def dict_get_def)
  then show ?thesis
    by (simp add: endpoint_turn_def bindE_def r)
qed

theorem anonymous_broadcast_ignored_witness:
  "\<not> truthy_str None \<and> int 80 \<le> MAX_MESSAGE_SIZE default_config \<and>
   json_loads (Encoded broadcast_frame) =
     Some (JDict [(''type'', JStr ''broadcast''), (''channel'', JStr ''room''),
                  (''event'', JStr ''note''), (''payload'', JDict [(''n'', JInt 1)])]) \<and>
   dict_get [(''type'', JStr ''broadcast''), (''channel'', JStr ''room''),
             (''event'', JStr ''note''), (''payload'', JDict [(''n'', JInt 1)])] ''type''
     = JStr ''broadcast'' \<and>
   subscribers anonymous_connected ''room'' = {''c1'', ''c2''} \<and>
   endpoint_turn default_config ''c3'' None ''m1'' (Text 80 (Encoded broadcast_frame))
       anonymous_connected =
     (Continue,
      update_object ''c3'' (\<lambda>c. c\<lparr>last_seen := clock anonymous_connected\<rparr>) anonymous_connected)"
proof -
  have h1: "\<not> truthy_str None" by simp
  have h2: "int 80 \<le> MAX_MESSAGE_SIZE default_config" by (simp add: default_config_fields)
  have h3: "json_loads (Encoded broadcast_frame) =
     Some (JDict [(''type'', JStr ''broadcast''), (''channel'', JStr ''room''),
                  (''event'', JStr ''note''), (''payload'', JDict [(''n'', JInt 1)])])"
    by (simp add: json_loads_def broadcast_frame_def)
  have h4: "dict_get [(''type'', JStr ''broadcast''), (''channel'', JStr ''room''),
             (''event'', JStr ''note''), (''payload'', JDict [(''n'', JInt 1)])] ''type''
     = JStr ''broadcast''"
    by (simp add: dict_get_def)
  have "channel_subscriptions anonymous_connected = channel_subscriptions two_in_room"
    unfolding anonymous_connected_def
    using connect_outcomes [of default_config "''c3''" open_socket None two_in_room]
    by (auto simp: registry_view_def register_connection_def Let_def)
  then have s: "subscribers anonymous_connected ''room'' = {''c1'', ''c2''}"
    by (simp add: subscribers_def two_in_room_sets [unfolded subscribers_def])
  show ?thesis
    using h1 h2 h3 h4 s
      anonymous_broadcast_ignored [OF h1 h2 h3 h4, where cid = "''c3''" and mid = "''m1''"
        and s = anonymous_connected]
    by simp
qed

section \<open>Broadcast to a channel without subscribers (C10)\<close>

text \<open>
  C10, as amended. A broadcast with \<open>persist\<close> set, to a channel that has no
  subscribers. With Redis answering, a retention of at least a day and a maximum that is
  not negative, the call returns the message id it drew with both counts 0, the message
  is at the head of the channel's stored list, and the channel's last activity is the
  instant of the call. With Redis not answering the call raises the error of Redis and
  leaves the state as it was, and with Redis answering and a retention that is not
  positive it raises that error too and leaves no list stored for the channel.
\<close>

theorem broadcast_without_subscribers:
  assumes "persist msg" and "subscribers s (bc_channel msg) = {}"
  shows "(r_up (redis s) \<and> 1 \<le> MESSAGE_RETENTION_DAYS cfg \<and> 0 \<le> MAX_MESSAGES_PER_CHANNEL cfg \<longrightarrow>
            fst (broadcast_to_channel cfg mid msg s) =
              Inr \<lparr>message_id = mid, sent_count = 0, failed_count = 0\<rparr> \<and>
            r_lists (redis (snd (broadcast_to_channel cfg mid msg s)))
                  (messages_key cfg (bc_channel msg)) =
              json_dumps (broadcast_message_of mid msg (clock s)) #
              (if MAX_MESSAGES_PER_CHANNEL cfg = 0
               then r_lists (redis s) (messages_key cfg (bc_channel msg))
               else take (nat (MAX_MESSAGES_PER_CHANNEL cfg - 1))
                      (r_lists (redis s) (messages_key cfg (bc_channel msg)))) \<and>
            r_strings (redis (snd (broadcast_to_channel cfg mid msg s)))
                  (last_activity_key cfg (bc_channel msg)) = Some (isoformat (clock s))) \<and>
         (\<not> r_up (redis s) \<longrightarrow>
            broadcast_to_channel cfg mid msg s = (Inl RedisError, s)) \<and>
         (r_up (redis s) \<and> MESSAGE_RETENTION_DAYS cfg \<le> 0 \<longrightarrow>
            fst (broadcast_to_channel cfg mid msg s) = Inl RedisError \<and>
            r_lists (redis (snd (broadcast_to_channel cfg mid msg s)))
                  (messages_key cfg (bc_channel msg)) = [])"
proof (intro conjI impI)
  let ?m = "broadcast_message_of mid msg (clock s)"
  let ?s1 = "snd (persist_message cfg (bc_channel msg) ?m s)"
  {
    assume h: "r_up (redis s) \<and> 1 \<le> MESSAGE_RETENTION_DAYS cfg \<and> 0 \<le> MAX_MESSAGES_PER_CHANNEL cfg"
    then have up: "r_up (redis s)" and ret: "1 \<le> MESSAGE_RETENTION_DAYS cfg"
      and cap: "0 \<le> MAX_MESSAGES_PER_CHANNEL cfg"
      by simp_all
    note p = persist_message_up [OF up ret, of "bc_channel msg" ?m]
    have chs: "channel_subscriptions ?s1 = channel_subscriptions s"
      by (rule p(9))
    have none: "broadcast_targets ?s1 msg = []"
      using assms(2) by (simp add: broadcast_targets_Nil chs subscribers_def)
    have run: "broadcast_to_channel cfg mid msg s =
          (Inr \<lparr>message_id = mid, sent_count = 0, failed_count = 0\<rparr>, ?s1)"
    proof -
      have "persist_message cfg (bc_channel msg) ?m s = (Inr (), ?s1)"
        using p(1) by (simp add: prod_eq_iff)
      then show ?thesis
        using assms(1) none by (simp add: broadcast_to_channel_def Let_def bindE_Inr)
    qed
    have trim: "list_range (json_dumps ?m # xs) 0 (MAX_MESSAGES_PER_CHANNEL cfg - 1) =
          json_dumps ?m # (if MAX_MESSAGES_PER_CHANNEL cfg = 0 then xs
                           else take (nat (MAX_MESSAGES_PER_CHANNEL cfg - 1)) xs)" for xs
    proof (cases "MAX_MESSAGES_PER_CHANNEL cfg = 0")
      case True
      then show ?thesis by (simp add: list_range_all)
    next
      case False
      with cap have pos: "0 \<le> MAX_MESSAGES_PER_CHANNEL cfg - 1" by simp
      then have "nat (MAX_MESSAGES_PER_CHANNEL cfg - 1 + 1) = Suc (nat (MAX_MESSAGES_PER_CHANNEL cfg - 1))"
        by simp
      with pos False show ?thesis
        by (simp add: list_range_prefix)
    qed
    show "fst (broadcast_to_channel cfg mid msg s) =
              Inr \<lparr>message_id = mid, sent_count = 0, failed_count = 0\<rparr>"
      by (simp add: run)
    show "r_lists (redis (snd (broadcast_to_channel cfg mid msg s)))
                  (messages_key cfg (bc_channel msg)) =
              json_dumps ?m #
              (if MAX_MESSAGES_PER_CHANNEL cfg = 0
               then r_lists (redis s) (messages_key cfg (bc_channel msg))
               else take (nat (MAX_MESSAGES_PER_CHANNEL cfg - 1))
                      (r_lists (redis s) (messages_key cfg (bc_channel msg))))"
      by (simp add: run p(2) trim)
    show "r_strings (redis (snd (broadcast_to_channel cfg mid msg s)))
                  (last_activity_key cfg (bc_channel msg)) = Some (isoformat (clock s))"
      by (simp add: run p(3))
  }
  {
    assume "\<not> r_up (redis s)"
    with assms(1) show "broadcast_to_channel cfg mid msg s = (Inl RedisError, s)"
      by (rule broadcast_down)
  }
  {
    assume h: "r_up (redis s) \<and> MESSAGE_RETENTION_DAYS cfg \<le> 0"
    then have up: "r_up (redis s)" and ret: "MESSAGE_RETENTION_DAYS cfg \<le> 0"
      by simp_all
    note q = persist_message_refused [OF up ret, of "bc_channel msg" ?m]
    obtain s1 where run: "persist_message cfg (bc_channel msg) ?m s = (Inl RedisError, s1)"
      using q(1) by (cases "persist_message cfg (bc_channel msg) ?m s") simp
    with q(2) have empty: "r_lists (redis s1) (messages_key cfg (bc_channel msg)) = []"
      by simp
    from run assms(1) have b: "broadcast_to_channel cfg mid msg s = (Inl RedisError, s1)"
      by (simp add: broadcast_to_channel_def Let_def bindE_def)
    show "fst (broadcast_to_channel cfg mid msg s) = Inl RedisError"
      by (simp add: b)
    show "r_lists (redis (snd (broadcast_to_channel cfg mid msg s)))
                  (messages_key cfg (bc_channel msg)) = []"
      by (simp add: b empty)
  }
qed

theorem broadcast_without_subscribers_witness:
  "persist lobby_broadcast \<and>
   subscribers alice_in_room (bc_channel lobby_broadcast) = {} \<and>
   r_up (redis alice_in_room) \<and>
   1 \<le> MESSAGE_RETENTION_DAYS default_config \<and>
   0 \<le> MAX_MESSAGES_PER_CHANNEL default_config \<and>
   fst (broadcast_to_channel default_config ''m1'' lobby_broadcast alice_in_room) =
     Inr \<lparr>message_id = ''m1'', sent_count = 0, failed_count = 0\<rparr> \<and>
   r_lists (redis (snd (broadcast_to_channel default_config ''m1'' lobby_broadcast alice_in_room)))
     (messages_key default_config ''lobby'') =
     [json_dumps (broadcast_message_of ''m1'' lobby_broadcast 0)] \<and>
   r_strings (redis (snd (broadcast_to_channel default_config ''m1'' lobby_broadcast alice_in_room)))
     (last_activity_key default_config ''lobby'') = Some (isoformat 0) \<and>
   subscribers (redis_down alice_in_room) (bc_channel lobby_broadcast) = {} \<and>
   \<not> r_up (redis (redis_down alice_in_room)) \<and>
   broadcast_to_channel default_config ''m1'' lobby_broadcast (redis_down alice_in_room) =
     (Inl RedisError, redis_down alice_in_room)"
proof -
  have h1: "persist lobby_broadcast" by (simp add: lobby_broadcast_def)
  have h2: "r_up (redis alice_in_room)"
    by (simp add: alice_in_room_value alice_connected_value empty_redis_def)
  have h4: "subscribers alice_in_room (bc_channel lobby_broadcast) = {}"
    by (simp add: alice_in_room_value subscribers_def get_set_def lobby_broadcast_def)
  have h5: "subscribers (redis_down alice_in_room) (bc_channel lobby_broadcast) = {}"
    using h4 by (simp add: subscribers_def redis_down_def)
  have e: "r_lists (redis alice_in_room) (messages_key default_config ''lobby'') = []"
    by (simp add: alice_in_room_value alice_connected_value empty_redis_def)
  have c: "clock alice_in_room = 0"
    by (simp add: alice_in_room_value alice_connected_value ConnectionManager_def)
  have d: "\<not> r_up (redis (redis_down alice_in_room))" by (simp add: redis_down_def)
  show ?thesis
    using h1 h2 h4 h5 d
      broadcast_without_subscribers [OF h1 h4, of default_config "''m1''"]
      broadcast_without_subscribers [OF h1 h5, of default_config "''m1''"]
    by (simp add: e c default_config_fields lobby_broadcast_def)
qed

text \<open>
  C10 as stated fails. With Redis not answering, the call to a channel without
  subscribers raises instead of returning the two zero counts, and nothing is stored.
  With a configured maximum of \<open>-1\<close> the call returns them, but the trim is
  \<open>LTRIM key 0 -2\<close>, which drops the last entry: on a channel with nothing stored the
  message itself, so that the list is empty after the call.
\<close>

theorem broadcast_without_subscribers_counterexample:
  "persist lobby_broadcast \<and>
   subscribers (redis_down alice_in_room) (bc_channel lobby_broadcast) = {} \<and>
   fst (broadcast_to_channel default_config ''m1'' lobby_broadcast (redis_down alice_in_room)) =
     Inl RedisError \<and>
   r_lists (redis (snd (broadcast_to_channel default_config ''m1'' lobby_broadcast
                          (redis_down alice_in_room))))
     (messages_key default_config ''lobby'') = [] \<and>
   subscribers alice_in_room (bc_channel lobby_broadcast) = {} \<and>
   fst (broadcast_to_channel (default_config\<lparr>MAX_MESSAGES_PER_CHANNEL := -1\<rparr>) ''m1''
          lobby_broadcast alice_in_room) =
     Inr \<lparr>message_id = ''m1'', sent_count = 0, failed_count = 0\<rparr> \<and>
   r_lists (redis (snd (broadcast_to_channel (default_config\<lparr>MAX_MESSAGES_PER_CHANNEL := -1\<rparr>)
                          ''m1'' lobby_broadcast alice_in_room)))
     (messages_key (default_config\<lparr>MAX_MESSAGES_PER_CHANNEL := -1\<rparr>) ''lobby'') = []"
proof -
  let ?cfg = "default_config\<lparr>MAX_MESSAGES_PER_CHANNEL := -1\<rparr>"
  let ?m = "broadcast_message_of ''m1'' lobby_broadcast (clock alice_in_room)"
  let ?s1 = "snd (persist_message ?cfg ''lobby'' ?m alice_in_room)"
  have h1: "persist lobby_broadcast" and ch: "bc_channel lobby_broadcast = ''lobby''"
    by (simp_all add: lobby_broadcast_def)
  have up: "r_up (redis alice_in_room)"
    by (simp add: alice_in_room_value alice_connected_value empty_redis_def)
  have h4: "subscribers alice_in_room (bc_channel lobby_broadcast) = {}"
    by (simp add: alice_in_room_value subscribers_def get_set_def lobby_broadcast_def)
  have h5: "subscribers (redis_down alice_in_room) (bc_channel lobby_broadcast) = {}"
    using h4 by (simp add: subscribers_def redis_down_def)
  have d: "\<not> r_up (redis (redis_down alice_in_room))" by (simp add: redis_down_def)
  have e: "r_lists (redis alice_in_room) k = []" for k
    by (simp add: alice_in_room_value alice_connected_value empty_redis_def
          ConnectionManager_def)
  have down: "broadcast_to_channel default_config ''m1'' lobby_broadcast (redis_down alice_in_room)
        = (Inl RedisError, redis_down alice_in_room)"
    using h1 d by (rule broadcast_down)
  have ret: "1 \<le> MESSAGE_RETENTION_DAYS ?cfg"
    by (simp add: default_config_fields)
  note p = persist_message_up [OF up ret, of "''lobby''" ?m]
  have none: "broadcast_targets ?s1 lobby_broadcast = []"
    using h4 by (simp add: broadcast_targets_Nil p(9) subscribers_def ch)
  have "persist_message ?cfg ''lobby'' ?m alice_in_room = (Inr (), ?s1)"
    using p(1) by (simp add: prod_eq_iff)
  then have run: "broadcast_to_channel ?cfg ''m1'' lobby_broadcast alice_in_room =
        (Inr \<lparr>message_id = ''m1'', sent_count = 0, failed_count = 0\<rparr>, ?s1)"
    using h1 none by (simp add: broadcast_to_channel_def Let_def bindE_Inr ch)
  have gone: "r_lists (redis ?s1) (messages_key ?cfg ''lobby'') = []"
    by (simp add: p(2) e list_range_def)
  have e': "r_lists (redis (redis_down alice_in_room)) k = []" for k
    by (simp add: redis_down_def e)
  show ?thesis
    using h1 h4 h5 by (simp add: down run gone e')
qed

end
